theory Spec2Isabelle
  imports Main
begin

section \<open>Data model (types.ts)\<close>

text \<open>
  \<^verbatim>\<open>FileSystemNode\<close> has a two-valued \<^verbatim>\<open>type\<close> tag and two optional fields,
  \<^verbatim>\<open>content?\<close> and \<^verbatim>\<open>children?\<close>; an optional field that is \<^verbatim>\<open>undefined\<close> is
  \<open>None\<close>. Nothing in the type ties the tag to the optional fields, so the
  model does not either. A JavaScript string is modelled as a \<open>string\<close>, each
  \<open>char\<close> standing for one code unit below 256. Trees are finite and unshared,
  which is what \<^verbatim>\<open>cloneFS\<close> (a JSON round trip) produces.
\<close>

datatype node_type = File | Directory

datatype FileSystemNode = FileSystemNode
  (name: string) (type: node_type) (content: "string option")
  (children: "FileSystemNode list option")
  (permissions: string) (owner: string) (size_str: string) (date: string)

text \<open>The assignment \<^verbatim>\<open>node.children = cs\<close>.\<close>

definition set_children :: "FileSystemNode \<Rightarrow> FileSystemNode list option \<Rightarrow> FileSystemNode" where
  "set_children node cs =
     FileSystemNode (name node) (type node) (content node) cs
       (permissions node) (owner node) (size_str node) (date node)"

section \<open>JavaScript string and array primitives used by mockSys.ts\<close>

definition startsWith :: "string \<Rightarrow> string \<Rightarrow> bool" where
  "startsWith s pre = (take (length pre) s = pre)"

text \<open>\<^verbatim>\<open>s.split(sep)\<close> for a one-character separator: the empty string gives one empty piece.\<close>

fun js_split :: "string \<Rightarrow> char \<Rightarrow> string list" where
  "js_split [] sep = [[]]"
| "js_split (c # cs) sep =
     (if c = sep then [] # js_split cs sep
      else (case js_split cs sep of [] \<Rightarrow> [[c]] | w # ws \<Rightarrow> (c # w) # ws))"

text \<open>\<^verbatim>\<open>xs.join(sep)\<close>.\<close>

fun join :: "string \<Rightarrow> string list \<Rightarrow> string" where
  "join sep [] = []"
| "join sep [x] = x"
| "join sep (x # y # ys) = x @ sep @ join sep (y # ys)"

text \<open>
  The white space and line terminator code units below 256: TAB, LF, VT, FF, CR,
  SP and NBSP. \<^verbatim>\<open>trim\<close> strips exactly the characters that \<^verbatim>\<open>\s\<close> matches.
\<close>

definition isWhiteSpace :: "char \<Rightarrow> bool" where
  "isWhiteSpace c = (c = CHR 0x09 \<or> c = CHR 0x0A \<or> c = CHR 0x0B \<or> c = CHR 0x0C
                     \<or> c = CHR 0x0D \<or> c = CHR 0x20 \<or> c = CHR 0xA0)"

definition trim :: "string \<Rightarrow> string" where
  "trim s = rev (dropWhile isWhiteSpace (rev (dropWhile isWhiteSpace s)))"

text \<open>
  \<^verbatim>\<open>s.split(/\s+/)\<close>: every maximal run of white space is one separator, so a
  string that starts or ends with white space has an empty first or last piece.
\<close>

function split_ws :: "string \<Rightarrow> string list" where
  "split_ws [] = [[]]"
| "split_ws (c # cs) =
     (if isWhiteSpace c then [] # split_ws (dropWhile isWhiteSpace cs)
      else (case split_ws cs of [] \<Rightarrow> [[c]] | w # ws \<Rightarrow> (c # w) # ws))"
  by pat_completeness auto
termination
  by (relation "measure length") (auto simp: le_imp_less_Suc length_dropWhile_le)

text \<open>\<^verbatim>\<open>xs[i]\<close>: reading past the end of an array gives \<^verbatim>\<open>undefined\<close>.\<close>

fun nth_opt :: "'a list \<Rightarrow> nat \<Rightarrow> 'a option" where
  "nth_opt [] i = None"
| "nth_opt (x # xs) 0 = Some x"
| "nth_opt (x # xs) (Suc i) = nth_opt xs i"

text \<open>\<^verbatim>\<open>xs.findIndex(p)\<close>: the first index whose element satisfies \<open>p\<close>, or \<open>-1\<close>.\<close>

fun findIndex :: "('a \<Rightarrow> bool) \<Rightarrow> 'a list \<Rightarrow> int" where
  "findIndex p [] = - 1"
| "findIndex p (x # xs) =
     (if p x then 0 else (let i = findIndex p xs in if i < 0 then - 1 else i + 1))"

text \<open>A template literal prints \<^verbatim>\<open>undefined\<close> for a missing value.\<close>

fun template_str :: "string option \<Rightarrow> string" where
  "template_str None = ''undefined''"
| "template_str (Some s) = s"

text \<open>\<^verbatim>\<open>x || ''\<close> on an optional string: \<^verbatim>\<open>undefined\<close> and the empty string are falsy.\<close>

fun or_empty :: "string option \<Rightarrow> string" where
  "or_empty None = []"
| "or_empty (Some s) = (if s = [] then [] else s)"

section \<open>The seed tree (mockSys.ts, initialFileSystem)\<close>

definition todo_md :: FileSystemNode where
  "todo_md = FileSystemNode ''todo.md'' File
     (Some (''- [ ] Refactor backend'' @ [CHR 0x0A] @ ''- [ ] Fix CSS bugs'' @ [CHR 0x0A]
            @ ''- [x] Deploy to production''))
     None ''-rw-r--r--'' ''user'' ''340'' ''Oct 27 09:15''"

definition project_notes_txt :: FileSystemNode where
  "project_notes_txt = FileSystemNode ''project_notes.txt'' File
     (Some (''These are the notes for the secret project.'' @ [CHR 0x0A] @ ''Status: Ongoing''
            @ [CHR 0x0A] @ ''Priority: High''))
     None ''-rw-r--r--'' ''user'' ''1.2k'' ''Oct 26 14:32''"

definition config_json :: FileSystemNode where
  "config_json = FileSystemNode ''config.json'' File
     (Some (''{'' @ [CHR 0x0A] @ ''  '' @ [CHR 0x22] @ ''theme'' @ [CHR 0x22] @ '': ''
            @ [CHR 0x22] @ ''dark'' @ [CHR 0x22] @ '','' @ [CHR 0x0A]
            @ ''  '' @ [CHR 0x22] @ ''notifications'' @ [CHR 0x22] @ '': true,'' @ [CHR 0x0A]
            @ ''  '' @ [CHR 0x22] @ ''version'' @ [CHR 0x22] @ '': '' @ [CHR 0x22] @ ''1.0.4''
            @ [CHR 0x22] @ [CHR 0x0A] @ ''}''))
     None ''-rw-r--r--'' ''user'' ''512'' ''Oct 25 11:20''"

definition documents_dir :: FileSystemNode where
  "documents_dir = FileSystemNode ''documents'' Directory None
     (Some [project_notes_txt, todo_md]) ''drwxr-xr-x'' ''user'' ''4096'' ''Oct 26 14:30''"

definition user_dir :: FileSystemNode where
  "user_dir = FileSystemNode ''user'' Directory None
     (Some [documents_dir, config_json]) ''drwxr-xr-x'' ''user'' ''4096'' ''Oct 25 10:01''"

definition home_dir :: FileSystemNode where
  "home_dir = FileSystemNode ''home'' Directory None
     (Some [user_dir]) ''drwxr-xr-x'' ''root'' ''4096'' ''Oct 25 10:00''"

definition syslog_file :: FileSystemNode where
  "syslog_file = FileSystemNode ''syslog'' File
     (Some ''Oct 27 15:45:01 server CRON[1234]: (root) CMD (cd / && run-parts --report /etc/cron.hourly)'')
     None ''-rw-r-----'' ''syslog'' ''24M'' ''Oct 27 15:45''"

definition log_dir :: FileSystemNode where
  "log_dir = FileSystemNode ''log'' Directory None
     (Some [syslog_file]) ''drwxr-xr-x'' ''root'' ''4096'' ''Oct 24 08:00''"

definition var_dir :: FileSystemNode where
  "var_dir = FileSystemNode ''var'' Directory None
     (Some [log_dir]) ''drwxr-xr-x'' ''root'' ''4096'' ''Oct 24 08:00''"

definition passwd_file :: FileSystemNode where
  "passwd_file = FileSystemNode ''passwd'' File
     (Some (''root:x:0:0:root:/root:/bin/bash'' @ [CHR 0x0A]
            @ ''user:x:1000:1000:user,,,:/home/user:/bin/bash''))
     None ''-rw-r--r--'' ''root'' ''1024'' ''Oct 20 12:00''"

definition etc_dir :: FileSystemNode where
  "etc_dir = FileSystemNode ''etc'' Directory None
     (Some [passwd_file]) ''drwxr-xr-x'' ''root'' ''4096'' ''Oct 20 12:00''"

definition initialFileSystem :: FileSystemNode where
  "initialFileSystem = FileSystemNode ''root'' Directory None
     (Some [home_dir, var_dir, etc_dir]) ''drwxr-xr-x'' ''root'' ''4096'' ''Oct 25 10:00''"

text \<open>The deep copy returns a tree equal to its argument; copies are not told apart by value.\<close>

definition cloneFS :: "FileSystemNode \<Rightarrow> FileSystemNode" where
  "cloneFS node = node"

section \<open>MockSystem (mockSys.ts)\<close>

record MockSystem =
  root :: FileSystemNode
  currentPath :: "string list"

definition constructor :: MockSystem where
  "constructor = \<lparr>root = cloneFS initialFileSystem, currentPath = [''home'', ''user'']\<rparr>"

definition getCurrentPathString :: "MockSystem \<Rightarrow> string" where
  "getCurrentPathString this = ''/'' @ join ''/'' (currentPath this)"

subsection \<open>findNode\<close>

fun findNode_loop :: "FileSystemNode \<Rightarrow> string list \<Rightarrow> FileSystemNode option" where
  "findNode_loop current [] = Some current"
| "findNode_loop current (segment # rest) =
     (case children current of
        None \<Rightarrow> None
      | Some cs \<Rightarrow>
         (case find (\<lambda>c. name c = segment) cs of
            None \<Rightarrow> None
          | Some next \<Rightarrow> findNode_loop next rest))"

definition findNode :: "MockSystem \<Rightarrow> string list \<Rightarrow> FileSystemNode option" where
  "findNode this path =
     (let current = root this in
      if length path = 0 then Some current else findNode_loop current path)"

subsection \<open>resolvePath\<close>

fun resolvePath_loop :: "string list \<Rightarrow> string list \<Rightarrow> string list" where
  "resolvePath_loop targetPath [] = targetPath"
| "resolvePath_loop targetPath (part # parts) =
     (if part = ''..'' then
        (if length targetPath > 0 then resolvePath_loop (butlast targetPath) parts
         else resolvePath_loop targetPath parts)
      else resolvePath_loop (targetPath @ [part]) parts)"

definition resolvePath :: "MockSystem \<Rightarrow> string \<Rightarrow> FileSystemNode option \<times> string list" where
  "resolvePath this pathStr =
     (let isAbsolute = startsWith pathStr ''/'';
          parts = filter (\<lambda>p. length p > 0 \<and> p \<noteq> ''.'') (js_split pathStr CHR ''/'');
          targetPath = (if isAbsolute then [] else currentPath this);
          targetPath = resolvePath_loop targetPath parts
      in (findNode this targetPath, targetPath))"

subsection \<open>executeCommand\<close>

text \<open>
  \<^verbatim>\<open>args[1]\<close> where the source has tested it for truthiness: the argument when
  it is a non-empty string, nothing when it is \<^verbatim>\<open>undefined\<close> or empty.
\<close>

fun truthy_arg :: "string option \<Rightarrow> string option" where
  "truthy_arg None = None"
| "truthy_arg (Some a) = (if a = [] then None else Some a)"

definition No_such_file :: string where
  "No_such_file = '': No such file or directory''"

definition executeCommand_ls :: "MockSystem \<Rightarrow> string list \<Rightarrow> string \<times> MockSystem" where
  "executeCommand_ls this args =
     (let target = (case truthy_arg (nth_opt args 1) of
                      Some a \<Rightarrow> fst (resolvePath this a)
                    | None \<Rightarrow> findNode this (currentPath this))
      in case target of
           None \<Rightarrow> (''ls: cannot access '' @ [CHR 0x27] @ template_str (nth_opt args 1)
                      @ [CHR 0x27] @ No_such_file, this)
         | Some t \<Rightarrow>
             if type t = File then (name t, this)
             else (or_empty (map_option (\<lambda>cs. join ''  '' (map name cs)) (children t)), this))"

definition executeCommand_cd :: "MockSystem \<Rightarrow> string list \<Rightarrow> string \<times> MockSystem" where
  "executeCommand_cd this args =
     (case truthy_arg (nth_opt args 1) of
        None \<Rightarrow> ([], this\<lparr>currentPath := [''home'', ''user'']\<rparr>)
      | Some a \<Rightarrow>
          (case resolvePath this a of
             (None, parts) \<Rightarrow> (''cd: '' @ a @ No_such_file, this)
           | (Some node, parts) \<Rightarrow>
               if type node \<noteq> Directory then (''cd: '' @ a @ No_such_file, this)
               else ([], this\<lparr>currentPath := parts\<rparr>)))"

definition executeCommand_cat :: "MockSystem \<Rightarrow> string list \<Rightarrow> string \<times> MockSystem" where
  "executeCommand_cat this args =
     (case truthy_arg (nth_opt args 1) of
        None \<Rightarrow> (''cat: missing operand'', this)
      | Some a \<Rightarrow>
          (case fst (resolvePath this a) of
             None \<Rightarrow> (''cat: '' @ a @ No_such_file, this)
           | Some node \<Rightarrow>
               if type node = Directory then (''cat: '' @ a @ '': Is a directory'', this)
               else (or_empty (content node), this)))"

definition help_text :: string where
  "help_text = ''Available commands: ls, cd, pwd, cat, echo, whoami, help.'' @ [CHR 0x0A]
               @ ''This is a simulated environment.''"

definition executeCommand :: "MockSystem \<Rightarrow> string \<Rightarrow> string \<times> MockSystem" where
  "executeCommand this cmdStr =
     (let args = split_ws (trim cmdStr);
          cmd = nth_opt args 0
      in case truthy_arg cmd of
           None \<Rightarrow> ([], this)
         | Some cmd \<Rightarrow>
             if cmd = ''ls'' then executeCommand_ls this args
             else if cmd = ''cd'' then executeCommand_cd this args
             else if cmd = ''pwd'' then (getCurrentPathString this, this)
             else if cmd = ''cat'' then executeCommand_cat this args
             else if cmd = ''echo'' then (join '' '' (drop 1 args), this)
             else if cmd = ''whoami'' then (''user'', this)
             else if cmd = ''help'' then (help_text, this)
             else (cmd @ '': command not found'', this))"

subsection \<open>listFiles\<close>

definition listFiles :: "MockSystem \<Rightarrow> string \<Rightarrow> FileSystemNode list" where
  "listFiles this pathStr =
     (let parts = (if pathStr = ''/'' then []
                   else filter (\<lambda>p. p \<noteq> []) (js_split pathStr CHR ''/''))
      in case findNode this parts of
           None \<Rightarrow> []
         | Some node \<Rightarrow>
             if type node = Directory
             then (case children node of None \<Rightarrow> [] | Some cs \<Rightarrow> cs)
             else [])"

subsection \<open>addFile\<close>

text \<open>
  \<^verbatim>\<open>addFile\<close> writes through the reference that \<^verbatim>\<open>resolvePath\<close> returned. In an
  unshared tree that object is the one reached from the root by taking, at each
  segment, the first child with that name; \<open>modify_at\<close> rebuilds the tree with
  the object at that position replaced, and leaves a tree without such a position
  as it is.
\<close>

fun modify_at :: "(FileSystemNode \<Rightarrow> FileSystemNode) \<Rightarrow> FileSystemNode \<Rightarrow> string list \<Rightarrow> FileSystemNode" where
  "modify_at f current [] = f current"
| "modify_at f current (segment # rest) =
     (case children current of
        None \<Rightarrow> current
      | Some cs \<Rightarrow>
          (let i = findIndex (\<lambda>c. name c = segment) cs
           in if i \<ge> 0 then set_children current (Some (cs[nat i := modify_at f (cs ! nat i) rest]))
              else current))"

text \<open>The body of the \<^verbatim>\<open>if\<close> of \<^verbatim>\<open>addFile\<close>, as a change of the directory node.\<close>

definition addFile_body :: "FileSystemNode \<Rightarrow> FileSystemNode \<Rightarrow> FileSystemNode" where
  "addFile_body fileNode node =
     (let cs = (case children node of None \<Rightarrow> [] | Some cs \<Rightarrow> cs);
          existsIndex = findIndex (\<lambda>c. name c = name fileNode) cs
      in if existsIndex \<ge> 0 then set_children node (Some (cs[nat existsIndex := fileNode]))
         else set_children node (Some (cs @ [fileNode])))"

definition addFile :: "MockSystem \<Rightarrow> string \<Rightarrow> FileSystemNode \<Rightarrow> bool \<times> MockSystem" where
  "addFile this dirPath fileNode =
     (case resolvePath this dirPath of
        (None, parts) \<Rightarrow> (False, this)
      | (Some node, parts) \<Rightarrow>
          if type node = Directory
          then (True, this\<lparr>root := modify_at (addFile_body fileNode) (root this) parts\<rparr>)
          else (False, this))"

section \<open>resolvePath with its arrays in a store\<close>

text \<open>
  Whether \<^verbatim>\<open>resolvePath\<close> changes the cursor depends on which array its
  \<^verbatim>\<open>pop\<close> and \<^verbatim>\<open>push\<close> write to. Here the string arrays live in a store, an
  address is an index into it, \<^verbatim>\<open>[]\<close> and \<^verbatim>\<open>[...xs]\<close> allocate, and
  \<^verbatim>\<open>this.currentPath\<close> holds an address. The tree stays a value: \<^verbatim>\<open>findNode\<close>
  and \<^verbatim>\<open>resolvePath\<close> assign to no field of a node.
\<close>

record MockSystem_store =
  root_s :: FileSystemNode
  currentPath_s :: nat
  arrays :: "string list list"

definition new_array :: "string list \<Rightarrow> string list list \<Rightarrow> nat \<times> string list list" where
  "new_array xs h = (length h, h @ [xs])"

fun resolvePath_loop_s :: "nat \<Rightarrow> string list \<Rightarrow> string list list \<Rightarrow> string list list" where
  "resolvePath_loop_s targetPath [] h = h"
| "resolvePath_loop_s targetPath (part # parts) h =
     (if part = ''..'' then
        (if length (h ! targetPath) > 0
         then resolvePath_loop_s targetPath parts (h[targetPath := butlast (h ! targetPath)])
         else resolvePath_loop_s targetPath parts h)
      else resolvePath_loop_s targetPath parts (h[targetPath := h ! targetPath @ [part]]))"

text \<open>The value state that a store state stands for.\<close>

definition abstract :: "MockSystem_store \<Rightarrow> MockSystem" where
  "abstract this = \<lparr>root = root_s this, currentPath = arrays this ! currentPath_s this\<rparr>"

definition resolvePath_s ::
  "MockSystem_store \<Rightarrow> string \<Rightarrow> (FileSystemNode option \<times> nat) \<times> MockSystem_store" where
  "resolvePath_s this pathStr =
     (let isAbsolute = startsWith pathStr ''/'';
          parts = filter (\<lambda>p. length p > 0 \<and> p \<noteq> ''.'') (js_split pathStr CHR ''/'');
          (targetPath, h) = new_array [] (arrays this);
          (targetPath, h) = (if isAbsolute then new_array [] h
                             else new_array (h ! currentPath_s this) h);
          h = resolvePath_loop_s targetPath parts h;
          this = this\<lparr>arrays := h\<rparr>
      in ((findNode (abstract this) (h ! targetPath), targetPath), this))"

section \<open>The specification's wording\<close>

text \<open>
  One step of the path resolver as the specification words it: \<^verbatim>\<open>..\<close> removes the
  last segment of a non-empty list and does nothing to the empty one, any other
  segment is appended.
\<close>

definition spec_step :: "string list \<Rightarrow> string \<Rightarrow> string list" where
  "spec_step target seg =
     (if seg = ''..'' then (if target = [] then [] else butlast target) else target @ [seg])"

text \<open>Where resolution starts: the root for a string beginning with a slash, else the cursor.\<close>

fun spec_start :: "string list \<Rightarrow> string \<Rightarrow> string list" where
  "spec_start cwd [] = cwd"
| "spec_start cwd (c # cs) = (if c = CHR ''/'' then [] else cwd)"

definition spec_segments :: "string \<Rightarrow> string list" where
  "spec_segments pathStr = filter (\<lambda>s. s \<noteq> [] \<and> s \<noteq> ''.'') (js_split pathStr CHR ''/'')"

definition spec_target :: "string list \<Rightarrow> string \<Rightarrow> string list" where
  "spec_target cwd pathStr = foldl spec_step (spec_start cwd pathStr) (spec_segments pathStr)"

text \<open>
  One step of the walk: from an absent node nothing is found; from a node, the
  first child of that name, absent when the node has no children or no such child.
\<close>

fun spec_child :: "FileSystemNode option \<Rightarrow> string \<Rightarrow> FileSystemNode option" where
  "spec_child None seg = None"
| "spec_child (Some node) seg =
     (case children node of None \<Rightarrow> None | Some cs \<Rightarrow> find (\<lambda>c. name c = seg) cs)"

definition spec_walk :: "FileSystemNode \<Rightarrow> string list \<Rightarrow> FileSystemNode option" where
  "spec_walk r segs = foldl spec_child (Some r) segs"

text \<open>
  What the file browser is given for a looked-up node: the children of a directory,
  nothing for a file, for an absent node and for a directory whose children are
  undefined.
\<close>

fun spec_listing :: "FileSystemNode option \<Rightarrow> FileSystemNode list" where
  "spec_listing None = []"
| "spec_listing (Some node) =
     (if type node = Directory then (case children node of None \<Rightarrow> [] | Some cs \<Rightarrow> cs) else [])"

section \<open>Splitting and joining\<close>

lemma js_split_not_Nil: "js_split s sep \<noteq> []"
  by (induction s) (auto split: list.splits)

lemma join_js_split: "join [sep] (js_split s sep) = s"
proof (induction s)
  case Nil
  show ?case by simp
next
  case (Cons c cs)
  obtain w ws where ws: "js_split cs sep = w # ws"
    using js_split_not_Nil [of cs sep] by (cases "js_split cs sep") auto
  show ?case
  proof (cases "c = sep")
    case True
    with Cons ws show ?thesis by simp
  next
    case False
    with Cons ws show ?thesis by (cases ws) auto
  qed
qed

lemma js_split_no_sep: "list_all (\<lambda>w. sep \<notin> set w) (js_split s sep)"
  by (induction s) (auto split: list.splits)

section \<open>Tokens of a command line\<close>

lemma split_ws_not_Nil: "split_ws s \<noteq> []"
  by (induction s rule: split_ws.induct) (auto split: list.splits)

lemma last_dropWhile: "dropWhile P xs \<noteq> [] \<Longrightarrow> last (dropWhile P xs) = last xs"
  by (induction xs) (auto split: if_splits)

lemma hd_split_ws_Nil: "hd (split_ws s) = [] \<Longrightarrow> s = [] \<or> isWhiteSpace (hd s)"
  using split_ws_not_Nil [of "tl s"] by (cases s) (auto split: list.splits if_splits)

lemma tl_split_ws_Nil: "[] \<in> set (tl (split_ws s)) \<Longrightarrow> s \<noteq> [] \<and> isWhiteSpace (last s)"
proof (induction s rule: split_ws.induct)
  case 1
  then show ?case by simp
next
  case (2 c cs)
  let ?d = "dropWhile isWhiteSpace cs"
  show ?case
  proof (cases "isWhiteSpace c")
    case True
    with 2(3) have mem: "[] \<in> set (split_ws ?d)" by simp
    show ?thesis
    proof (cases "?d = []")
      case True
      then have "\<forall>x\<in>set cs. isWhiteSpace x" by (simp add: dropWhile_eq_Nil_conv)
      with \<open>isWhiteSpace c\<close> show ?thesis by (cases cs) auto
    next
      case False
      then have nws: "\<not> isWhiteSpace (hd ?d)" by (rule hd_dropWhile)
      have "hd (split_ws ?d) \<noteq> []" using hd_split_ws_Nil [of ?d] False nws by blast
      with mem have "[] \<in> set (tl (split_ws ?d))"
        using split_ws_not_Nil [of ?d] by (cases "split_ws ?d") auto
      with 2(1) [OF True] have "isWhiteSpace (last ?d)" by simp
      with False have "isWhiteSpace (last cs)" by (simp add: last_dropWhile)
      moreover from False have "cs \<noteq> []" by auto
      ultimately show ?thesis by simp
    qed
  next
    case False
    obtain w ws where ws: "split_ws cs = w # ws"
      using split_ws_not_Nil [of cs] by (cases "split_ws cs") auto
    with 2(3) False have "[] \<in> set (tl (split_ws cs))" by simp
    with 2(2) [OF False] show ?thesis by simp
  qed
qed

lemma trim_ends: "trim s \<noteq> [] \<Longrightarrow> \<not> isWhiteSpace (hd (trim s)) \<and> \<not> isWhiteSpace (last (trim s))"
proof -
  assume ne: "trim s \<noteq> []"
  let ?d = "dropWhile isWhiteSpace s"
  let ?e = "dropWhile isWhiteSpace (rev ?d)"
  from ne have e: "?e \<noteq> []" by (simp add: trim_def)
  have d: "?d \<noteq> []"
  proof
    assume "?d = []"
    then have "?e = []" by (simp only: rev.simps dropWhile.simps)
    with e show False by simp
  qed
  have "last (trim s) = hd ?e" using e by (simp add: trim_def last_rev)
  moreover have "\<not> isWhiteSpace (hd ?e)" using e by (rule hd_dropWhile)
  moreover have "hd (trim s) = last ?e" using e by (simp add: trim_def hd_rev)
  moreover have "last ?e = last (rev ?d)" using e by (rule last_dropWhile)
  moreover have "last (rev ?d) = hd ?d" using d by (simp add: last_rev)
  moreover have "\<not> isWhiteSpace (hd ?d)" using d by (rule hd_dropWhile)
  ultimately show ?thesis by simp
qed

lemma tokens_nonempty: "trim s \<noteq> [] \<Longrightarrow> [] \<notin> set (split_ws (trim s))"
proof
  assume ne: "trim s \<noteq> []" and mem: "[] \<in> set (split_ws (trim s))"
  from trim_ends [OF ne] have h: "\<not> isWhiteSpace (hd (trim s))" and l: "\<not> isWhiteSpace (last (trim s))"
    by simp_all
  from hd_split_ws_Nil [of "trim s"] ne h have "hd (split_ws (trim s)) \<noteq> []" by blast
  with mem have "[] \<in> set (tl (split_ws (trim s)))"
    using split_ws_not_Nil [of "trim s"] by (cases "split_ws (trim s)") auto
  with tl_split_ws_Nil [of "trim s"] l show False by simp
qed

lemma dropWhile_all: "(\<forall>x\<in>set (dropWhile P s). P x) \<longleftrightarrow> (\<forall>x\<in>set s. P x)"
  by (induction s) auto

lemma trim_Nil_iff: "trim s = [] \<longleftrightarrow> list_all isWhiteSpace s"
  by (simp add: trim_def list_all_iff dropWhile_all)

lemma tokens_cases:
  "(trim s = [] \<and> split_ws (trim s) = [[]]) \<or>
   (\<exists>cmd rest. split_ws (trim s) = cmd # rest \<and> cmd \<noteq> [] \<and> [] \<notin> set rest)"
proof (cases "trim s = []")
  case True
  then show ?thesis by simp
next
  case False
  obtain cmd rest where cr: "split_ws (trim s) = cmd # rest"
    using split_ws_not_Nil [of "trim s"] by (cases "split_ws (trim s)") auto
  with tokens_nonempty [OF False] show ?thesis by auto
qed

section \<open>Path resolution\<close>

lemma foldl_spec_child_None: "foldl spec_child None segs = None"
  by (induction segs) auto

lemma findNode_loop_spec_walk: "findNode_loop r segs = spec_walk r segs"
  unfolding spec_walk_def
proof (induction segs arbitrary: r)
  case Nil
  show ?case by simp
next
  case (Cons s ss)
  show ?case
    by (simp add: Cons foldl_spec_child_None split: option.splits)
qed

lemma findNode_spec_walk: "findNode this segs = spec_walk (root this) segs"
  by (cases segs) (simp_all add: findNode_def findNode_loop_spec_walk Let_def, simp add: spec_walk_def)

lemma resolvePath_loop_foldl: "resolvePath_loop target parts = foldl spec_step target parts"
  by (induction parts arbitrary: target) (auto simp: spec_step_def)

lemma startsWith_slash: "(if startsWith s ''/'' then [] else cwd) = spec_start cwd s"
  by (cases s) (auto simp: startsWith_def)

lemma resolvePath_target: "snd (resolvePath this pathStr) = spec_target (currentPath this) pathStr"
  by (simp add: resolvePath_def Let_def spec_target_def spec_segments_def resolvePath_loop_foldl
      startsWith_slash [symmetric])

lemma resolvePath_node: "fst (resolvePath this pathStr) = findNode this (snd (resolvePath this pathStr))"
  by (simp add: resolvePath_def Let_def)

text \<open>
  Claim C1. For every path string and every cursor, \<open>resolvePath\<close> returns the
  segment list the specification describes: it starts from the empty list when the
  string begins with a slash and from the cursor otherwise, takes the pieces between
  slashes (the pieces joined by slashes are the string again, and no piece holds a
  slash), drops the empty pieces and the pieces equal to a dot, and folds the rest
  from left to right, a double dot removing the last segment of a non-empty list and
  leaving the empty list empty, any other piece being appended. The node returned is
  the walk from the root along that list, each step taking the first child of that
  name, and absent from the first step on that meets a node without children or
  without such a child; the segment list is returned in either case.
\<close>

theorem resolvePath_as_specified:
  "resolvePath this pathStr =
     (spec_walk (root this) (spec_target (currentPath this) pathStr),
      spec_target (currentPath this) pathStr)
   \<and> join ''/'' (js_split pathStr CHR ''/'') = pathStr
   \<and> list_all (\<lambda>w. CHR ''/'' \<notin> set w) (js_split pathStr CHR ''/'')"
proof -
  have "resolvePath this pathStr = (fst (resolvePath this pathStr), snd (resolvePath this pathStr))"
    by simp
  also have "\<dots> = (spec_walk (root this) (spec_target (currentPath this) pathStr),
      spec_target (currentPath this) pathStr)"
    by (simp only: resolvePath_node resolvePath_target findNode_spec_walk)
  finally show ?thesis
    using join_js_split [of "CHR ''/''" pathStr] js_split_no_sep [of "CHR ''/''" pathStr] by simp
qed

theorem resolvePath_as_specified_witness:
  "resolvePath constructor ''../x/./y//..'' = (None, [''home'', ''x''])"
  using resolvePath_as_specified [of constructor "''../x/./y//..''"]
  by (simp add: spec_target_def spec_segments_def spec_step_def spec_walk_def constructor_def
      cloneFS_def initialFileSystem_def home_dir_def var_dir_def etc_dir_def user_dir_def)

section \<open>The command interpreter\<close>

lemma tokens_rest:
  assumes "split_ws (trim s) = cmd # rest" and "cmd \<noteq> []"
  shows "trim s \<noteq> []" and "[] \<notin> set rest"
proof -
  show ne: "trim s \<noteq> []" using assms by auto
  from tokens_nonempty [OF ne] assms show "[] \<notin> set rest" by simp
qed

lemma arg1:
  "[] \<notin> set rest \<Longrightarrow>
   truthy_arg (nth_opt (cmd # rest) 1) = (case rest of [] \<Rightarrow> None | a # _ \<Rightarrow> Some a)"
  by (cases rest) auto

lemma executeCommand_blank: "trim cmdStr = [] \<Longrightarrow> executeCommand this cmdStr = ([], this)"
  by (simp add: executeCommand_def)

lemma executeCommand_dispatch:
  "split_ws (trim cmdStr) = cmd # rest \<Longrightarrow> cmd \<noteq> [] \<Longrightarrow>
   executeCommand this cmdStr =
     (if cmd = ''ls'' then executeCommand_ls this (cmd # rest)
      else if cmd = ''cd'' then executeCommand_cd this (cmd # rest)
      else if cmd = ''pwd'' then (getCurrentPathString this, this)
      else if cmd = ''cat'' then executeCommand_cat this (cmd # rest)
      else if cmd = ''echo'' then (join '' '' rest, this)
      else if cmd = ''whoami'' then (''user'', this)
      else if cmd = ''help'' then (help_text, this)
      else (cmd @ '': command not found'', this))"
  by (simp add: executeCommand_def)

lemma not_Directory: "(t \<noteq> Directory) = (t = File)"
  by (cases t) auto

lemma executeCommand_cd_eq:
  "[] \<notin> set rest \<Longrightarrow>
   executeCommand_cd this (cmd # rest) =
     (case rest of
        [] \<Rightarrow> ([], this\<lparr>currentPath := [''home'', ''user'']\<rparr>)
      | path # _ \<Rightarrow>
          (case resolvePath this path of
             (None, parts) \<Rightarrow> (''cd: '' @ path @ '': No such file or directory'', this)
           | (Some node, parts) \<Rightarrow>
               if type node = File then (''cd: '' @ path @ '': No such file or directory'', this)
               else ([], this\<lparr>currentPath := parts\<rparr>)))"
  by (cases rest) (auto simp: executeCommand_cd_def No_such_file_def not_Directory
      split: option.splits prod.splits)

lemma executeCommand_cat_eq:
  "[] \<notin> set rest \<Longrightarrow>
   executeCommand_cat this (cmd # rest) =
     (case rest of
        [] \<Rightarrow> (''cat: missing operand'', this)
      | path # _ \<Rightarrow>
          (case fst (resolvePath this path) of
             None \<Rightarrow> (''cat: '' @ path @ '': No such file or directory'', this)
           | Some node \<Rightarrow>
               if type node = Directory then (''cat: '' @ path @ '': Is a directory'', this)
               else (case content node of None \<Rightarrow> [] | Some text \<Rightarrow> text, this)))"
  by (cases rest) (auto simp: executeCommand_cat_def No_such_file_def
      split: option.splits prod.splits)

lemma or_empty_join:
  "or_empty (map_option (\<lambda>cs. join sep (map name cs)) c) =
   join sep (map name (case c of None \<Rightarrow> [] | Some cs \<Rightarrow> cs))"
  by (cases c) auto

lemma executeCommand_ls_eq:
  assumes "[] \<notin> set rest"
  shows "executeCommand_ls this (cmd # rest) =
     (case (case rest of [] \<Rightarrow> findNode this (currentPath this)
                     | path # _ \<Rightarrow> fst (resolvePath this path)) of
        None \<Rightarrow> (''ls: cannot access '' @ [CHR 0x27]
                   @ (case rest of [] \<Rightarrow> ''undefined'' | path # _ \<Rightarrow> path)
                   @ [CHR 0x27] @ '': No such file or directory'', this)
      | Some t \<Rightarrow>
          (if type t = File then name t
           else join ''  '' (map name (case children t of None \<Rightarrow> [] | Some cs \<Rightarrow> cs)), this))"
proof -
  have t: "truthy_arg (nth_opt (cmd # rest) 1) = (case rest of [] \<Rightarrow> None | a # _ \<Rightarrow> Some a)"
    using assms by (rule arg1)
  have u: "template_str (nth_opt (cmd # rest) 1) = (case rest of [] \<Rightarrow> ''undefined'' | a # _ \<Rightarrow> a)"
    by (cases rest) simp_all
  show ?thesis
    unfolding executeCommand_ls_def t u
    by (cases rest) (simp_all add: No_such_file_def or_empty_join split: option.splits)
qed

text \<open>
  Claim C2. For every command line whose tokens are \<^verbatim>\<open>cd\<close> followed by \<open>rest\<close>:
  with no argument the cursor becomes \<^verbatim>\<open>['home','user']\<close> and the output is empty;
  with an argument that resolves to no node or to a file the output is
  \<^verbatim>\<open>cd: <path>: No such file or directory\<close>, with the argument as typed, and the
  state is unchanged; with an argument that resolves to a directory the cursor becomes
  the resolved segment list and the output is empty.
\<close>

theorem cd_semantics:
  "split_ws (trim cmdStr) = ''cd'' # rest \<Longrightarrow>
   executeCommand this cmdStr =
     (case rest of
        [] \<Rightarrow> ([], this\<lparr>currentPath := [''home'', ''user'']\<rparr>)
      | path # _ \<Rightarrow>
          (case resolvePath this path of
             (None, parts) \<Rightarrow> (''cd: '' @ path @ '': No such file or directory'', this)
           | (Some node, parts) \<Rightarrow>
               if type node = File then (''cd: '' @ path @ '': No such file or directory'', this)
               else ([], this\<lparr>currentPath := parts\<rparr>)))"
proof -
  assume args: "split_ws (trim cmdStr) = ''cd'' # rest"
  then have "[] \<notin> set rest" by (rule tokens_rest(2)) simp
  then show ?thesis
    using executeCommand_dispatch [OF args, of this] by (simp add: executeCommand_cd_eq)
qed

text \<open>The definitions of the seed tree, for evaluating concrete commands.\<close>

lemmas seed_defs = constructor_def cloneFS_def initialFileSystem_def home_dir_def var_dir_def
  etc_dir_def user_dir_def documents_dir_def log_dir_def todo_md_def config_json_def
  project_notes_txt_def syslog_file_def passwd_file_def

theorem cd_semantics_witness:
  "split_ws (trim ''cd /etc'') = [''cd'', ''/etc''] \<and>
   executeCommand constructor '' cd  /etc '' = ([], constructor\<lparr>currentPath := [''etc'']\<rparr>) \<and>
   executeCommand constructor ''cd /etc/passwd'' = (''cd: /etc/passwd: No such file or directory'', constructor) \<and>
   executeCommand (constructor\<lparr>currentPath := []\<rparr>) ''cd'' = ([], constructor)"
proof -
  have h1: "split_ws (trim ''cd /etc'') = [''cd'', ''/etc'']"
    by (simp add: trim_def isWhiteSpace_def)
  have h2: "split_ws (trim '' cd  /etc '') = [''cd'', ''/etc'']"
    by (simp add: trim_def isWhiteSpace_def)
  have h3: "split_ws (trim ''cd /etc/passwd'') = [''cd'', ''/etc/passwd'']"
    by (simp add: trim_def isWhiteSpace_def)
  have h4: "split_ws (trim ''cd'') = [''cd'']"
    by (simp add: trim_def isWhiteSpace_def)
  have r1: "resolvePath constructor ''/etc'' = (Some etc_dir, [''etc''])"
    by (simp add: resolvePath_def startsWith_def findNode_def constructor_def cloneFS_def initialFileSystem_def
        home_dir_def var_dir_def etc_dir_def)
  have r2: "resolvePath constructor ''/etc/passwd'' = (Some passwd_file, [''etc'', ''passwd''])"
    by (simp add: resolvePath_def startsWith_def findNode_def constructor_def cloneFS_def initialFileSystem_def
        home_dir_def var_dir_def etc_dir_def passwd_file_def)
  show ?thesis
    using h1 cd_semantics [OF h2, of constructor] cd_semantics [OF h3, of constructor]
      cd_semantics [OF h4, of "constructor\<lparr>currentPath := []\<rparr>"]
    by (simp add: r1 r2 etc_dir_def passwd_file_def) (simp add: constructor_def)
qed

text \<open>
  Claim C4. For every command line whose tokens are \<^verbatim>\<open>ls\<close> followed by \<open>rest\<close>:
  when an argument resolves to no node the output is
  \<^verbatim>\<open>ls: cannot access '<path>': No such file or directory\<close>; when the target (the
  resolved argument, or the node at the cursor when there is no argument) is a file
  the output is its name; when it is a directory the output is the names of its
  children, in stored order, joined by two spaces, which is the empty string for a
  directory without children.
\<close>

theorem ls_semantics:
  "split_ws (trim cmdStr) = ''ls'' # rest \<Longrightarrow>
   (\<forall>path others. rest = path # others \<and> fst (resolvePath this path) = None \<longrightarrow>
      executeCommand this cmdStr =
        (''ls: cannot access '' @ [CHR 0x27] @ path @ [CHR 0x27] @ '': No such file or directory'', this))
   \<and> (\<forall>t. (case rest of [] \<Rightarrow> findNode this (currentPath this)
                      | path # _ \<Rightarrow> fst (resolvePath this path)) = Some t \<longrightarrow>
          executeCommand this cmdStr =
            (if type t = File then name t
             else join ''  '' (map name (case children t of None \<Rightarrow> [] | Some cs \<Rightarrow> cs)), this))
   \<and> join ''  '' (map name []) = []"
proof -
  assume args: "split_ws (trim cmdStr) = ''ls'' # rest"
  then have "[] \<notin> set rest" by (rule tokens_rest(2)) simp
  then have "executeCommand this cmdStr =
     (case (case rest of [] \<Rightarrow> findNode this (currentPath this)
                     | path # _ \<Rightarrow> fst (resolvePath this path)) of
        None \<Rightarrow> (''ls: cannot access '' @ [CHR 0x27]
                   @ (case rest of [] \<Rightarrow> ''undefined'' | path # _ \<Rightarrow> path)
                   @ [CHR 0x27] @ '': No such file or directory'', this)
      | Some t \<Rightarrow>
          (if type t = File then name t
           else join ''  '' (map name (case children t of None \<Rightarrow> [] | Some cs \<Rightarrow> cs)), this))"
    using executeCommand_dispatch [OF args, of this] by (simp add: executeCommand_ls_eq)
  then show ?thesis by auto
qed

theorem ls_semantics_witness:
  "executeCommand constructor ''ls /etc/passwd'' = (''passwd'', constructor) \<and>
   executeCommand constructor ''ls'' = (''documents  config.json'', constructor) \<and>
   executeCommand constructor ''ls /nope'' =
     (''ls: cannot access '' @ [CHR 0x27] @ ''/nope'' @ [CHR 0x27] @ '': No such file or directory'',
      constructor)"
proof -
  have h1: "split_ws (trim ''ls /etc/passwd'') = [''ls'', ''/etc/passwd'']"
    by (simp add: trim_def isWhiteSpace_def)
  have h2: "split_ws (trim ''ls'') = [''ls'']"
    by (simp add: trim_def isWhiteSpace_def)
  have h3: "split_ws (trim ''ls /nope'') = [''ls'', ''/nope'']"
    by (simp add: trim_def isWhiteSpace_def)
  have r1: "fst (resolvePath constructor ''/etc/passwd'') = Some passwd_file"
    by (simp add: resolvePath_def startsWith_def findNode_def seed_defs)
  have r2: "findNode constructor (currentPath constructor) = Some user_dir"
    by (simp add: findNode_def seed_defs)
  have r3: "fst (resolvePath constructor ''/nope'') = None"
    by (simp add: resolvePath_def startsWith_def findNode_def seed_defs)
  show ?thesis
    using ls_semantics [OF h1, of constructor] ls_semantics [OF h2, of constructor]
      ls_semantics [OF h3, of constructor]
    by (simp add: r1 r2 r3) (simp add: passwd_file_def user_dir_def documents_dir_def config_json_def)
qed

lemma seed_scenario_cd:
  "executeCommand constructor ''cd /home/user/documents'' =
     ([], constructor\<lparr>currentPath := [''home'', ''user'', ''documents'']\<rparr>)"
proof -
  have h: "split_ws (trim ''cd /home/user/documents'') = [''cd'', ''/home/user/documents'']"
    by (simp add: trim_def isWhiteSpace_def)
  have r: "resolvePath constructor ''/home/user/documents''
             = (Some documents_dir, [''home'', ''user'', ''documents''])"
    by (simp add: resolvePath_def startsWith_def findNode_def seed_defs)
  have n: "[] \<notin> set [''/home/user/documents'']" by simp
  show ?thesis
    using executeCommand_dispatch [OF h, of constructor]
    by (simp add: executeCommand_cd_eq [OF n] r documents_dir_def)
qed

lemma seed_scenario_cat:
  "executeCommand (constructor\<lparr>currentPath := [''home'', ''user'', ''documents'']\<rparr>) ''cat todo.md'' =
     (''- [ ] Refactor backend'' @ [CHR 0x0A] @ ''- [ ] Fix CSS bugs'' @ [CHR 0x0A]
        @ ''- [x] Deploy to production'',
      constructor\<lparr>currentPath := [''home'', ''user'', ''documents'']\<rparr>)"
proof -
  have h: "split_ws (trim ''cat todo.md'') = [''cat'', ''todo.md'']"
    by (simp add: trim_def isWhiteSpace_def)
  have r: "fst (resolvePath (constructor\<lparr>currentPath := [''home'', ''user'', ''documents'']\<rparr>) ''todo.md'')
             = Some todo_md"
    by (simp add: resolvePath_def startsWith_def findNode_def seed_defs)
  have n: "[] \<notin> set [''todo.md'']" by simp
  show ?thesis
    using executeCommand_dispatch [OF h, of "constructor\<lparr>currentPath := [''home'', ''user'', ''documents'']\<rparr>"]
    by (simp add: executeCommand_cat_eq [OF n] r todo_md_def)
qed

lemma seed_todo_md:
  "findNode constructor [''home'', ''user'', ''documents'', ''todo.md''] = Some todo_md"
  by (simp add: findNode_def seed_defs)

text \<open>
  Claim C5. For every command line whose tokens are \<^verbatim>\<open>cat\<close> followed by \<open>rest\<close>:
  no argument gives \<^verbatim>\<open>cat: missing operand\<close>; an argument that resolves to no node
  gives \<^verbatim>\<open>cat: <path>: No such file or directory\<close>; one that resolves to a directory
  gives \<^verbatim>\<open>cat: <path>: Is a directory\<close>; one that resolves to a file gives its
  content, the empty string when it has none. On the seed tree,
  \<^verbatim>\<open>cd /home/user/documents\<close> followed by \<^verbatim>\<open>cat todo.md\<close> returns the content seeded
  at \<^verbatim>\<open>/home/user/documents/todo.md\<close>.
\<close>

theorem cat_semantics:
  "(split_ws (trim cmdStr) = ''cat'' # rest \<longrightarrow>
    executeCommand this cmdStr =
     (case rest of
        [] \<Rightarrow> (''cat: missing operand'', this)
      | path # _ \<Rightarrow>
          (case fst (resolvePath this path) of
             None \<Rightarrow> (''cat: '' @ path @ '': No such file or directory'', this)
           | Some node \<Rightarrow>
               if type node = Directory then (''cat: '' @ path @ '': Is a directory'', this)
               else (case content node of None \<Rightarrow> [] | Some text \<Rightarrow> text, this))))
   \<and> (case executeCommand constructor ''cd /home/user/documents'' of
        (out1, this1) \<Rightarrow>
          (case executeCommand this1 ''cat todo.md'' of
             (out2, this2) \<Rightarrow>
               out2 = ''- [ ] Refactor backend'' @ [CHR 0x0A] @ ''- [ ] Fix CSS bugs'' @ [CHR 0x0A]
                        @ ''- [x] Deploy to production''
               \<and> map_option content
                     (findNode constructor [''home'', ''user'', ''documents'', ''todo.md''])
                   = Some (Some out2)))"
proof (intro conjI impI)
  assume args: "split_ws (trim cmdStr) = ''cat'' # rest"
  then have "[] \<notin> set rest" by (rule tokens_rest(2)) simp
  then show "executeCommand this cmdStr =
     (case rest of
        [] \<Rightarrow> (''cat: missing operand'', this)
      | path # _ \<Rightarrow>
          (case fst (resolvePath this path) of
             None \<Rightarrow> (''cat: '' @ path @ '': No such file or directory'', this)
           | Some node \<Rightarrow>
               if type node = Directory then (''cat: '' @ path @ '': Is a directory'', this)
               else (case content node of None \<Rightarrow> [] | Some text \<Rightarrow> text, this)))"
    using executeCommand_dispatch [OF args, of this] by (simp add: executeCommand_cat_eq)
next
  show "case executeCommand constructor ''cd /home/user/documents'' of
        (out1, this1) \<Rightarrow>
          (case executeCommand this1 ''cat todo.md'' of
             (out2, this2) \<Rightarrow>
               out2 = ''- [ ] Refactor backend'' @ [CHR 0x0A] @ ''- [ ] Fix CSS bugs'' @ [CHR 0x0A]
                        @ ''- [x] Deploy to production''
               \<and> map_option content
                     (findNode constructor [''home'', ''user'', ''documents'', ''todo.md''])
                   = Some (Some out2))"
    by (simp add: seed_scenario_cd seed_scenario_cat seed_todo_md) (simp add: todo_md_def)
qed

theorem cat_semantics_witness:
  "executeCommand constructor ''cat documents'' = (''cat: documents: Is a directory'', constructor) \<and>
   executeCommand constructor ''cat'' = (''cat: missing operand'', constructor) \<and>
   executeCommand constructor ''cat nope'' = (''cat: nope: No such file or directory'', constructor)"
proof -
  have h1: "split_ws (trim ''cat documents'') = [''cat'', ''documents'']"
    by (simp add: trim_def isWhiteSpace_def)
  have h2: "split_ws (trim ''cat'') = [''cat'']"
    by (simp add: trim_def isWhiteSpace_def)
  have h3: "split_ws (trim ''cat nope'') = [''cat'', ''nope'']"
    by (simp add: trim_def isWhiteSpace_def)
  have r1: "fst (resolvePath constructor ''documents'') = Some documents_dir"
    by (simp add: resolvePath_def startsWith_def findNode_def seed_defs)
  have r3: "fst (resolvePath constructor ''nope'') = None"
    by (simp add: resolvePath_def startsWith_def findNode_def seed_defs)
  show ?thesis
    using cat_semantics [of "''cat documents''" "[''documents'']" constructor]
      cat_semantics [of "''cat''" "[]" constructor]
      cat_semantics [of "''cat nope''" "[''nope'']" constructor]
    by (simp add: h1 h2 h3 r1 r3) (simp add: documents_dir_def)
qed

section \<open>Totality and frame of the interpreter\<close>

lemma executeCommand_ls_state: "snd (executeCommand_ls this args) = this"
  by (simp add: executeCommand_ls_def Let_def split: option.splits)

lemma executeCommand_cat_state: "snd (executeCommand_cat this args) = this"
  by (simp add: executeCommand_cat_def split: option.splits)

lemma executeCommand_cd_state:
  "snd (executeCommand_cd this args) = this\<lparr>currentPath := currentPath (snd (executeCommand_cd this args))\<rparr>"
  by (simp add: executeCommand_cd_def split: option.splits prod.splits)

lemma executeCommand_state:
  "snd (executeCommand this cmdStr) = this\<lparr>currentPath := currentPath (snd (executeCommand this cmdStr))\<rparr>"
proof (cases "truthy_arg (nth_opt (split_ws (trim cmdStr)) 0)")
  case None
  then show ?thesis by (simp add: executeCommand_def)
next
  case (Some cmd)
  then show ?thesis
    using executeCommand_cd_state [of this "split_ws (trim cmdStr)"]
    by (simp add: executeCommand_def Let_def executeCommand_ls_state executeCommand_cat_state)
qed

text \<open>
  Claim C6. \<open>executeCommand\<close> is a total function from a state and a line to a text
  and a state: the model reads an array cell as an optional value and a node through
  a case distinction, so no read of a missing value is left that could raise. A line
  of white space only (the empty line among them) returns the empty text and the state
  as it was. Any other line has a non-empty first token and non-empty further tokens;
  a first token outside the seven built-in names returns
  \<^verbatim>\<open><command>: command not found\<close>, and each failure of \<^verbatim>\<open>ls\<close>, \<^verbatim>\<open>cd\<close> and
  \<^verbatim>\<open>cat\<close> returns its message as the output, with the state as it was.
\<close>

theorem executeCommand_total:
  "(list_all isWhiteSpace cmdStr \<longrightarrow> executeCommand this cmdStr = ([], this))
   \<and> (\<not> list_all isWhiteSpace cmdStr \<longrightarrow>
        (\<exists>cmd rest. split_ws (trim cmdStr) = cmd # rest \<and> cmd \<noteq> [] \<and> [] \<notin> set rest
           \<and> (cmd \<notin> set [''ls'', ''cd'', ''pwd'', ''cat'', ''echo'', ''whoami'', ''help''] \<longrightarrow>
                executeCommand this cmdStr = (cmd @ '': command not found'', this))
           \<and> (cmd = ''ls'' \<longrightarrow>
                (\<forall>path others. rest = path # others \<and> fst (resolvePath this path) = None \<longrightarrow>
                   executeCommand this cmdStr =
                     (''ls: cannot access '' @ [CHR 0x27] @ path @ [CHR 0x27]
                        @ '': No such file or directory'', this)))
           \<and> (cmd = ''cd'' \<longrightarrow>
                (\<forall>path others. rest = path # others
                     \<and> (case fst (resolvePath this path) of None \<Rightarrow> True
                                                            | Some node \<Rightarrow> type node = File) \<longrightarrow>
                   executeCommand this cmdStr =
                     (''cd: '' @ path @ '': No such file or directory'', this)))
           \<and> (cmd = ''cat'' \<longrightarrow>
                (rest = [] \<longrightarrow> executeCommand this cmdStr = (''cat: missing operand'', this))
                \<and> (\<forall>path others. rest = path # others \<longrightarrow>
                     (fst (resolvePath this path) = None \<longrightarrow>
                        executeCommand this cmdStr =
                          (''cat: '' @ path @ '': No such file or directory'', this))
                     \<and> (\<forall>node. fst (resolvePath this path) = Some node \<and> type node = Directory \<longrightarrow>
                          executeCommand this cmdStr =
                            (''cat: '' @ path @ '': Is a directory'', this))))))"
proof (intro conjI impI)
  assume "list_all isWhiteSpace cmdStr"
  then have "trim cmdStr = []" by (simp add: trim_Nil_iff)
  then show "executeCommand this cmdStr = ([], this)" by (rule executeCommand_blank)
next
  assume "\<not> list_all isWhiteSpace cmdStr"
  then have ne: "trim cmdStr \<noteq> []" by (simp add: trim_Nil_iff)
  with tokens_cases [of cmdStr] obtain cmd rest
    where args: "split_ws (trim cmdStr) = cmd # rest" and cmd: "cmd \<noteq> []" and rest: "[] \<notin> set rest"
    by auto
  note d = executeCommand_dispatch [OF args cmd, of this]
  have unknown: "cmd \<notin> set [''ls'', ''cd'', ''pwd'', ''cat'', ''echo'', ''whoami'', ''help''] \<longrightarrow>
                executeCommand this cmdStr = (cmd @ '': command not found'', this)"
    using d by simp
  have ls: "cmd = ''ls'' \<longrightarrow>
                (\<forall>path others. rest = path # others \<and> fst (resolvePath this path) = None \<longrightarrow>
                   executeCommand this cmdStr =
                     (''ls: cannot access '' @ [CHR 0x27] @ path @ [CHR 0x27]
                        @ '': No such file or directory'', this))"
    using d executeCommand_ls_eq [OF rest, of this cmd] by auto
  have cd: "cmd = ''cd'' \<longrightarrow>
                (\<forall>path others. rest = path # others
                     \<and> (case fst (resolvePath this path) of None \<Rightarrow> True
                                                            | Some node \<Rightarrow> type node = File) \<longrightarrow>
                   executeCommand this cmdStr =
                     (''cd: '' @ path @ '': No such file or directory'', this))"
    using d executeCommand_cd_eq [OF rest, of this cmd] by (auto split: option.splits prod.splits)
  have cat: "cmd = ''cat'' \<longrightarrow>
                (rest = [] \<longrightarrow> executeCommand this cmdStr = (''cat: missing operand'', this))
                \<and> (\<forall>path others. rest = path # others \<longrightarrow>
                     (fst (resolvePath this path) = None \<longrightarrow>
                        executeCommand this cmdStr =
                          (''cat: '' @ path @ '': No such file or directory'', this))
                     \<and> (\<forall>node. fst (resolvePath this path) = Some node \<and> type node = Directory \<longrightarrow>
                          executeCommand this cmdStr =
                            (''cat: '' @ path @ '': Is a directory'', this)))"
    using d executeCommand_cat_eq [OF rest, of this cmd] by auto
  from args cmd rest unknown ls cd cat
  show "\<exists>cmd rest. split_ws (trim cmdStr) = cmd # rest \<and> cmd \<noteq> [] \<and> [] \<notin> set rest
           \<and> (cmd \<notin> set [''ls'', ''cd'', ''pwd'', ''cat'', ''echo'', ''whoami'', ''help''] \<longrightarrow>
                executeCommand this cmdStr = (cmd @ '': command not found'', this))
           \<and> (cmd = ''ls'' \<longrightarrow>
                (\<forall>path others. rest = path # others \<and> fst (resolvePath this path) = None \<longrightarrow>
                   executeCommand this cmdStr =
                     (''ls: cannot access '' @ [CHR 0x27] @ path @ [CHR 0x27]
                        @ '': No such file or directory'', this)))
           \<and> (cmd = ''cd'' \<longrightarrow>
                (\<forall>path others. rest = path # others
                     \<and> (case fst (resolvePath this path) of None \<Rightarrow> True
                                                            | Some node \<Rightarrow> type node = File) \<longrightarrow>
                   executeCommand this cmdStr =
                     (''cd: '' @ path @ '': No such file or directory'', this)))
           \<and> (cmd = ''cat'' \<longrightarrow>
                (rest = [] \<longrightarrow> executeCommand this cmdStr = (''cat: missing operand'', this))
                \<and> (\<forall>path others. rest = path # others \<longrightarrow>
                     (fst (resolvePath this path) = None \<longrightarrow>
                        executeCommand this cmdStr =
                          (''cat: '' @ path @ '': No such file or directory'', this))
                     \<and> (\<forall>node. fst (resolvePath this path) = Some node \<and> type node = Directory \<longrightarrow>
                          executeCommand this cmdStr =
                            (''cat: '' @ path @ '': Is a directory'', this))))"
    by blast
qed


theorem executeCommand_total_witness:
  "executeCommand constructor [CHR 0x20, CHR 0x09] = ([], constructor) \<and>
   executeCommand constructor ''nonexistentcmd'' = (''nonexistentcmd: command not found'', constructor) \<and>
   executeCommand constructor ''ls /nope'' =
     (''ls: cannot access '' @ [CHR 0x27] @ ''/nope'' @ [CHR 0x27] @ '': No such file or directory'',
      constructor) \<and>
   executeCommand constructor ''cd /etc/passwd'' = (''cd: /etc/passwd: No such file or directory'', constructor) \<and>
   executeCommand constructor ''cat'' = (''cat: missing operand'', constructor) \<and>
   executeCommand constructor ''cat /nope'' = (''cat: /nope: No such file or directory'', constructor) \<and>
   executeCommand constructor ''cat /etc'' = (''cat: /etc: Is a directory'', constructor)"
proof -
  have w1: "list_all isWhiteSpace [CHR 0x20, CHR 0x09]"
    by (simp add: isWhiteSpace_def)
  from executeCommand_total [of "[CHR 0x20, CHR 0x09]" constructor] w1
  have a: "executeCommand constructor [CHR 0x20, CHR 0x09] = ([], constructor)"
    by blast
  have r1: "fst (resolvePath constructor ''/nope'') = None"
    by (simp add: resolvePath_def startsWith_def findNode_def seed_defs)
  have r2: "fst (resolvePath constructor ''/etc/passwd'') = Some passwd_file"
    by (simp add: resolvePath_def startsWith_def findNode_def seed_defs)
  have r3: "fst (resolvePath constructor ''/etc'') = Some etc_dir"
    by (simp add: resolvePath_def startsWith_def findNode_def seed_defs)
  have t2: "type passwd_file = File" by (simp add: passwd_file_def)
  have t3: "type etc_dir = Directory" by (simp add: etc_dir_def)
  have b: "executeCommand constructor ''nonexistentcmd''
      = (''nonexistentcmd: command not found'', constructor)"
  proof -
    have "\<not> list_all isWhiteSpace ''nonexistentcmd''" by (simp add: isWhiteSpace_def)
    moreover have "split_ws (trim ''nonexistentcmd'') = [''nonexistentcmd'']"
      by (simp add: trim_def isWhiteSpace_def)
    ultimately show ?thesis
      using executeCommand_total [of "''nonexistentcmd''" constructor] by auto
  qed
  have c: "executeCommand constructor ''ls /nope'' =
     (''ls: cannot access '' @ [CHR 0x27] @ ''/nope'' @ [CHR 0x27] @ '': No such file or directory'',
      constructor)"
  proof -
    have "\<not> list_all isWhiteSpace ''ls /nope''" by (simp add: isWhiteSpace_def)
    moreover have "split_ws (trim ''ls /nope'') = [''ls'', ''/nope'']"
      by (simp add: trim_def isWhiteSpace_def)
    ultimately show ?thesis
      using executeCommand_total [of "''ls /nope''" constructor] r1 by auto
  qed
  have d: "executeCommand constructor ''cd /etc/passwd''
      = (''cd: /etc/passwd: No such file or directory'', constructor)"
  proof -
    have "\<not> list_all isWhiteSpace ''cd /etc/passwd''" by (simp add: isWhiteSpace_def)
    moreover have "split_ws (trim ''cd /etc/passwd'') = [''cd'', ''/etc/passwd'']"
      by (simp add: trim_def isWhiteSpace_def)
    ultimately show ?thesis
      using executeCommand_total [of "''cd /etc/passwd''" constructor] r2 t2 by auto
  qed
  have e: "executeCommand constructor ''cat'' = (''cat: missing operand'', constructor)"
  proof -
    have "\<not> list_all isWhiteSpace ''cat''" by (simp add: isWhiteSpace_def)
    moreover have "split_ws (trim ''cat'') = [''cat'']"
      by (simp add: trim_def isWhiteSpace_def)
    ultimately show ?thesis
      using executeCommand_total [of "''cat''" constructor] by auto
  qed
  have f: "executeCommand constructor ''cat /nope'' = (''cat: /nope: No such file or directory'', constructor)"
  proof -
    have "\<not> list_all isWhiteSpace ''cat /nope''" by (simp add: isWhiteSpace_def)
    moreover have "split_ws (trim ''cat /nope'') = [''cat'', ''/nope'']"
      by (simp add: trim_def isWhiteSpace_def)
    ultimately show ?thesis
      using executeCommand_total [of "''cat /nope''" constructor] r1 by auto
  qed
  have g: "executeCommand constructor ''cat /etc'' = (''cat: /etc: Is a directory'', constructor)"
  proof -
    have "\<not> list_all isWhiteSpace ''cat /etc''" by (simp add: isWhiteSpace_def)
    moreover have "split_ws (trim ''cat /etc'') = [''cat'', ''/etc'']"
      by (simp add: trim_def isWhiteSpace_def)
    ultimately show ?thesis
      using executeCommand_total [of "''cat /etc''" constructor] r3 t3 by auto
  qed
  from a b c d e f g show ?thesis by blast
qed

lemma addFile_cursor: "currentPath (snd (addFile this dirPath fileNode)) = currentPath this"
  by (simp add: addFile_def split: prod.splits option.splits)

lemma executeCommand_cursor_changed:
  assumes "currentPath (snd (executeCommand this cmdStr)) \<noteq> currentPath this"
  shows "\<exists>rest. split_ws (trim cmdStr) = ''cd'' # rest \<and>
           (case rest of [] \<Rightarrow> True
            | path # _ \<Rightarrow> (\<exists>node. fst (resolvePath this path) = Some node \<and> type node = Directory))"
proof -
  have ne: "trim cmdStr \<noteq> []"
    using assms executeCommand_blank [of cmdStr this] by auto
  with tokens_cases [of cmdStr] obtain cmd rest
    where args: "split_ws (trim cmdStr) = cmd # rest" and cmd: "cmd \<noteq> []" and rest: "[] \<notin> set rest"
    by auto
  note d = executeCommand_dispatch [OF args cmd, of this]
  have cd: "cmd = ''cd''"
  proof (rule ccontr)
    assume "cmd \<noteq> ''cd''"
    with d have "snd (executeCommand this cmdStr) = this"
      by (simp add: executeCommand_ls_state executeCommand_cat_state)
    with assms show False by simp
  qed
  have "case rest of [] \<Rightarrow> True
        | path # _ \<Rightarrow> (\<exists>node. fst (resolvePath this path) = Some node \<and> type node = Directory)"
  proof (cases rest)
    case Nil
    then show ?thesis by simp
  next
    case (Cons path others)
    show ?thesis
    proof (rule ccontr)
      assume "\<not> ?thesis"
      with Cons have no: "\<forall>node. fst (resolvePath this path) = Some node \<longrightarrow> type node = File"
        by (auto simp: not_Directory [symmetric])
      have "snd (executeCommand this cmdStr) = this"
        using d cd Cons no executeCommand_cd_eq [OF rest, of this cmd]
        by (auto split: option.splits prod.splits)
      with assms show False by simp
    qed
  qed
  with args cd show ?thesis by simp
qed

text \<open>
  Claim C8. For every command line \<open>executeCommand\<close> returns the state it was given
  with at most the cursor replaced, so the tree is the same; and when the cursor after
  the call differs from the cursor before, the line is a \<^verbatim>\<open>cd\<close> with no argument or
  with an argument that resolves to a directory. \<open>addFile\<close>, the one operation that
  writes to the tree, leaves the cursor as it was.
\<close>

theorem executeCommand_frame:
  "root (snd (executeCommand this cmdStr)) = root this
   \<and> snd (executeCommand this cmdStr)
       = this\<lparr>currentPath := currentPath (snd (executeCommand this cmdStr))\<rparr>
   \<and> (currentPath (snd (executeCommand this cmdStr)) \<noteq> currentPath this \<longrightarrow>
        (\<exists>rest. split_ws (trim cmdStr) = ''cd'' # rest \<and>
           (case rest of [] \<Rightarrow> True
            | path # _ \<Rightarrow> (\<exists>node. fst (resolvePath this path) = Some node \<and> type node = Directory))))
   \<and> currentPath (snd (addFile this dirPath fileNode)) = currentPath this"
proof -
  have s: "snd (executeCommand this cmdStr)
       = this\<lparr>currentPath := currentPath (snd (executeCommand this cmdStr))\<rparr>"
    by (rule executeCommand_state)
  have "root (snd (executeCommand this cmdStr))
       = root (this\<lparr>currentPath := currentPath (snd (executeCommand this cmdStr))\<rparr>)"
    using s by simp
  then have r: "root (snd (executeCommand this cmdStr)) = root this" by simp
  from r s executeCommand_cursor_changed [of this cmdStr] addFile_cursor [of this dirPath fileNode]
  show ?thesis by blast
qed

theorem executeCommand_frame_witness:
  "currentPath (snd (executeCommand constructor ''cd /etc'')) \<noteq> currentPath constructor
   \<and> (\<exists>rest. split_ws (trim ''cd /etc'') = ''cd'' # rest \<and>
           (case rest of [] \<Rightarrow> True
            | path # _ \<Rightarrow> (\<exists>node. fst (resolvePath constructor path) = Some node \<and> type node = Directory)))
   \<and> root (snd (executeCommand constructor ''cd /etc'')) = root constructor"
proof -
  have h: "split_ws (trim ''cd /etc'') = [''cd'', ''/etc'']"
    by (simp add: trim_def isWhiteSpace_def)
  have r: "resolvePath constructor ''/etc'' = (Some etc_dir, [''etc''])"
    by (simp add: resolvePath_def startsWith_def findNode_def seed_defs)
  have n: "[] \<notin> set [''/etc'']" by simp
  have e: "executeCommand constructor ''cd /etc'' = ([], constructor\<lparr>currentPath := [''etc'']\<rparr>)"
    using executeCommand_dispatch [OF h, of constructor]
    by (simp add: executeCommand_cd_eq [OF n] r etc_dir_def)
  have c: "currentPath (snd (executeCommand constructor ''cd /etc'')) \<noteq> currentPath constructor"
    by (simp add: e) (simp add: constructor_def)
  with executeCommand_frame [of constructor "''cd /etc''" "''/''" todo_md]
  show ?thesis by blast
qed

section \<open>addFile\<close>

lemma findIndex_range: "findIndex p xs = - 1 \<or> (0 \<le> findIndex p xs \<and> findIndex p xs < int (length xs))"
  by (induction xs) (auto simp: Let_def)

lemma findIndex_none: "findIndex p xs < 0 \<longleftrightarrow> (\<forall>x\<in>set xs. \<not> p x)"
  using findIndex_range [of p] by (induction xs) (auto simp: Let_def)

lemma findIndex_first:
  "i < length xs \<Longrightarrow> p (xs ! i) \<Longrightarrow> (\<forall>j<i. \<not> p (xs ! j)) \<Longrightarrow> findIndex p xs = int i"
proof (induction xs arbitrary: i)
  case Nil
  then show ?case by simp
next
  case (Cons x xs)
  show ?case
  proof (cases i)
    case 0
    with Cons.prems show ?thesis by simp
  next
    case (Suc k)
    with Cons.prems have "\<not> p x" by auto
    moreover have "findIndex p xs = int k"
      using Cons.prems Suc by (intro Cons.IH) auto
    ultimately show ?thesis using Suc by (simp add: Let_def)
  qed
qed

lemma findIndex_found:
  "0 \<le> findIndex p xs \<Longrightarrow>
   nat (findIndex p xs) < length xs \<and> p (xs ! nat (findIndex p xs))
   \<and> (\<forall>j < nat (findIndex p xs). \<not> p (xs ! j))"
proof (induction xs)
  case Nil
  then show ?case by simp
next
  case (Cons x xs)
  show ?case
  proof (cases "p x")
    case True
    then show ?thesis by simp
  next
    case False
    with Cons.prems have nn: "0 \<le> findIndex p xs" by (simp add: Let_def split: if_splits)
    then have eq: "findIndex p (x # xs) = findIndex p xs + 1" using False by (simp add: Let_def)
    from nn False have n: "nat (findIndex p (x # xs)) = Suc (nat (findIndex p xs))"
      by (simp add: Let_def nat_add_distrib)
    have "\<forall>j < Suc (nat (findIndex p xs)). \<not> p ((x # xs) ! j)"
      using Cons.IH [OF nn] False by (auto simp: less_Suc_eq_0_disj)
    with Cons.IH [OF nn] show ?thesis
      by (simp only: n) simp
  qed
qed

lemma find_findIndex:
  "find p xs = (if 0 \<le> findIndex p xs then Some (xs ! nat (findIndex p xs)) else None)"
proof (induction xs)
  case Nil
  show ?case by simp
next
  case (Cons x xs)
  show ?case
  proof (cases "p x")
    case True
    then show ?thesis by simp
  next
    case False
    show ?thesis
    proof (cases "0 \<le> findIndex p xs")
      case True
      then have "nat (findIndex p xs + 1) = Suc (nat (findIndex p xs))" by (simp add: nat_add_distrib)
      with True False Cons show ?thesis by (simp add: Let_def)
    next
      case False
      with \<open>\<not> p x\<close> Cons show ?thesis by (simp add: Let_def)
    qed
  qed
qed

lemma find_update_first:
  "0 \<le> findIndex p xs \<Longrightarrow> p y \<Longrightarrow> find p (xs[nat (findIndex p xs) := y]) = Some y"
proof (induction xs)
  case Nil
  then show ?case by simp
next
  case (Cons x xs)
  show ?case
  proof (cases "p x")
    case True
    with Cons.prems show ?thesis by simp
  next
    case False
    with Cons.prems have nn: "0 \<le> findIndex p xs" by (simp add: Let_def split: if_splits)
    then have "nat (findIndex p xs + 1) = Suc (nat (findIndex p xs))" by (simp add: nat_add_distrib)
    with False nn Cons show ?thesis by (simp add: Let_def)
  qed
qed

lemma set_children_sel [simp]:
  "name (set_children n cs) = name n" "type (set_children n cs) = type n"
  "children (set_children n cs) = cs" "content (set_children n cs) = content n"
  by (simp_all add: set_children_def)

lemma name_modify_at: "(\<And>n. name (f n) = name n) \<Longrightarrow> name (modify_at f r parts) = name r"
  by (cases parts) (auto simp: Let_def split: option.splits)

lemma findNode_loop_modify_at:
  assumes f: "\<And>n. name (f n) = name n"
  shows "findNode_loop r parts = Some d \<Longrightarrow> findNode_loop (modify_at f r parts) parts = Some (f d)"
proof (induction parts arbitrary: r)
  case Nil
  then show ?case by simp
next
  case (Cons seg rest)
  let ?p = "\<lambda>c. name c = seg"
  from Cons.prems obtain cs nxt where cs: "children r = Some cs"
    and nxt: "find ?p cs = Some nxt" and d: "findNode_loop nxt rest = Some d"
    by (auto split: option.splits)
  from nxt have i: "0 \<le> findIndex ?p cs" and nth: "cs ! nat (findIndex ?p cs) = nxt"
    by (auto simp: find_findIndex split: if_splits)
  from findIndex_found [OF i] nth have "name nxt = seg" by auto
  then have "?p (modify_at f nxt rest)" using name_modify_at [of f nxt rest] f by simp
  with i have "find ?p (cs[nat (findIndex ?p cs) := modify_at f nxt rest]) = Some (modify_at f nxt rest)"
    by (rule find_update_first)
  with cs i nth Cons.IH [OF d] show ?case by (simp add: Let_def)
qed

lemma findNode_modify_at:
  assumes f: "\<And>n. name (f n) = name n" and "findNode this parts = Some d"
  shows "findNode (this\<lparr>root := modify_at f (root this) parts\<rparr>) parts = Some (f d)"
proof (cases parts)
  case Nil
  with assms show ?thesis by (simp add: findNode_def)
next
  case (Cons a list)
  with assms(2) have "findNode_loop (root this) parts = Some d" by (simp add: findNode_def)
  from findNode_loop_modify_at [of f, OF f this] Cons show ?thesis by (simp add: findNode_def)
qed

lemma findNode_loop_append:
  "findNode_loop r (xs @ ys) = (case findNode_loop r xs of None \<Rightarrow> None | Some n \<Rightarrow> findNode_loop n ys)"
  by (induction xs arbitrary: r) (auto split: option.splits)

lemma findNode_eq_loop: "findNode this parts = findNode_loop (root this) parts"
  by (cases parts) (simp_all add: findNode_def)

lemma name_addFile_body: "name (addFile_body fileNode n) = name n"
  by (simp add: addFile_body_def Let_def)

lemma addFile_not_directory:
  "(\<And>node. fst (resolvePath this dirPath) = Some node \<Longrightarrow> type node = File) \<Longrightarrow>
   addFile this dirPath fileNode = (False, this)"
  by (cases "resolvePath this dirPath") (auto simp: addFile_def split: option.splits)

lemma addFile_directory:
  assumes "resolvePath this dirPath = (Some node, parts)" and "type node = Directory"
  shows "fst (addFile this dirPath fileNode) = True"
    and "findNode (snd (addFile this dirPath fileNode)) parts = Some (addFile_body fileNode node)"
proof -
  from assms have a: "addFile this dirPath fileNode
      = (True, this\<lparr>root := modify_at (addFile_body fileNode) (root this) parts\<rparr>)"
    by (simp add: addFile_def)
  then show "fst (addFile this dirPath fileNode) = True" by simp
  from assms(1) have "findNode this parts = Some node"
    using resolvePath_node [of this dirPath] by simp
  then have "findNode (this\<lparr>root := modify_at (addFile_body fileNode) (root this) parts\<rparr>) parts
      = Some (addFile_body fileNode node)"
    by (intro findNode_modify_at name_addFile_body)
  with a show "findNode (snd (addFile this dirPath fileNode)) parts = Some (addFile_body fileNode node)"
    by simp
qed

lemma addFile_body_replace:
  assumes "cs = (case children node of None \<Rightarrow> [] | Some cs \<Rightarrow> cs)"
    and "i < length cs" and "name (cs ! i) = name fileNode"
    and "\<forall>j<i. name (cs ! j) \<noteq> name fileNode"
  shows "addFile_body fileNode node = set_children node (Some (cs[i := fileNode]))"
proof -
  have "findIndex (\<lambda>c. name c = name fileNode) cs = int i"
    using assms(2-4) by (intro findIndex_first) auto
  with assms(1) show ?thesis by (simp add: addFile_body_def Let_def)
qed

lemma addFile_body_append:
  assumes "cs = (case children node of None \<Rightarrow> [] | Some cs \<Rightarrow> cs)"
    and "\<forall>c\<in>set cs. name c \<noteq> name fileNode"
  shows "addFile_body fileNode node = set_children node (Some (cs @ [fileNode]))"
proof -
  have "findIndex (\<lambda>c. name c = name fileNode) cs < 0"
    using assms(2) by (simp add: findIndex_none)
  with assms(1) show ?thesis by (simp add: addFile_body_def Let_def)
qed

lemma addFile_body_children: "\<exists>cs'. addFile_body fileNode node = set_children node (Some cs')"
  by (auto simp: addFile_body_def Let_def)

lemma set_children_inject: "set_children n a = set_children n b \<Longrightarrow> a = b"
  by (simp add: set_children_def)

text \<open>
  Claim C3. For every directory path string and node: when the path resolves to no
  node or to a file, \<open>addFile\<close> returns false and the state it was given. When it
  resolves to a directory, \<open>addFile\<close> returns true and the node then found at the
  resolved position is that directory with a new children sequence: where the first
  child carrying the new node's name stood at index \<open>i\<close>, the sequence with the new node
  at index \<open>i\<close> and everything else in place, of the same length; where no child
  carries that name, the sequence with the new node appended, longer by one. A
  directory whose children are undefined counts as having none.
\<close>

theorem addFile_semantics:
  "((\<forall>node. fst (resolvePath this dirPath) = Some node \<longrightarrow> type node = File) \<longrightarrow>
       addFile this dirPath fileNode = (False, this))
   \<and> (\<forall>node parts cs.
         resolvePath this dirPath = (Some node, parts) \<and> type node = Directory
         \<and> cs = (case children node of None \<Rightarrow> [] | Some cs \<Rightarrow> cs) \<longrightarrow>
         fst (addFile this dirPath fileNode) = True
         \<and> (\<exists>cs'. findNode (snd (addFile this dirPath fileNode)) parts
                    = Some (set_children node (Some cs'))
              \<and> (\<forall>i. i < length cs \<and> name (cs ! i) = name fileNode
                       \<and> (\<forall>j<i. name (cs ! j) \<noteq> name fileNode) \<longrightarrow>
                     cs' = cs[i := fileNode] \<and> length cs' = length cs)
              \<and> ((\<forall>c\<in>set cs. name c \<noteq> name fileNode) \<longrightarrow>
                     cs' = cs @ [fileNode] \<and> length cs' = length cs + 1)))"
proof (intro conjI impI allI)
  assume "\<forall>node. fst (resolvePath this dirPath) = Some node \<longrightarrow> type node = File"
  then show "addFile this dirPath fileNode = (False, this)"
    by (intro addFile_not_directory) simp
next
  fix node parts cs
  assume h: "resolvePath this dirPath = (Some node, parts) \<and> type node = Directory
         \<and> cs = (case children node of None \<Rightarrow> [] | Some cs \<Rightarrow> cs)"
  then have r: "resolvePath this dirPath = (Some node, parts)" and t: "type node = Directory"
    and cs: "cs = (case children node of None \<Rightarrow> [] | Some cs \<Rightarrow> cs)"
    by simp_all
  show "fst (addFile this dirPath fileNode) = True"
    by (rule addFile_directory(1) [OF r t])
  obtain cs' where cs': "addFile_body fileNode node = set_children node (Some cs')"
    using addFile_body_children by blast
  have found: "findNode (snd (addFile this dirPath fileNode)) parts = Some (set_children node (Some cs'))"
    using addFile_directory(2) [OF r t, of fileNode] cs' by simp
  have repl: "\<forall>i. i < length cs \<and> name (cs ! i) = name fileNode
                       \<and> (\<forall>j<i. name (cs ! j) \<noteq> name fileNode) \<longrightarrow>
                     cs' = cs[i := fileNode] \<and> length cs' = length cs"
  proof (intro allI impI)
    fix i
    assume "i < length cs \<and> name (cs ! i) = name fileNode \<and> (\<forall>j<i. name (cs ! j) \<noteq> name fileNode)"
    then have "addFile_body fileNode node = set_children node (Some (cs[i := fileNode]))"
      using cs by (intro addFile_body_replace) auto
    with cs' have "Some cs' = Some (cs[i := fileNode])"
      by (intro set_children_inject [of node]) simp
    then show "cs' = cs[i := fileNode] \<and> length cs' = length cs" by simp
  qed
  have app: "(\<forall>c\<in>set cs. name c \<noteq> name fileNode) \<longrightarrow>
                     cs' = cs @ [fileNode] \<and> length cs' = length cs + 1"
  proof
    assume "\<forall>c\<in>set cs. name c \<noteq> name fileNode"
    then have "addFile_body fileNode node = set_children node (Some (cs @ [fileNode]))"
      using cs by (intro addFile_body_append) auto
    with cs' have "Some cs' = Some (cs @ [fileNode])"
      by (intro set_children_inject [of node]) simp
    then show "cs' = cs @ [fileNode] \<and> length cs' = length cs + 1" by simp
  qed
  from found repl app
  show "\<exists>cs'. findNode (snd (addFile this dirPath fileNode)) parts
                    = Some (set_children node (Some cs'))
              \<and> (\<forall>i. i < length cs \<and> name (cs ! i) = name fileNode
                       \<and> (\<forall>j<i. name (cs ! j) \<noteq> name fileNode) \<longrightarrow>
                     cs' = cs[i := fileNode] \<and> length cs' = length cs)
              \<and> ((\<forall>c\<in>set cs. name c \<noteq> name fileNode) \<longrightarrow>
                     cs' = cs @ [fileNode] \<and> length cs' = length cs + 1)"
    by blast
qed

theorem addFile_semantics_witness:
  "addFile constructor ''/etc/passwd'' todo_md = (False, constructor)
   \<and> fst (addFile constructor ''/etc'' todo_md) = True
   \<and> findNode (snd (addFile constructor ''/etc'' todo_md)) [''etc'']
       = Some (set_children etc_dir (Some [passwd_file, todo_md]))
   \<and> findNode (snd (addFile constructor ''/etc'' (set_children passwd_file None))) [''etc'']
       = Some (set_children etc_dir (Some [set_children passwd_file None]))"
proof -
  have r1: "fst (resolvePath constructor ''/etc/passwd'') = Some passwd_file"
    by (simp add: resolvePath_def startsWith_def findNode_def seed_defs)
  have t1: "type passwd_file = File" by (simp add: passwd_file_def)
  have a: "addFile constructor ''/etc/passwd'' todo_md = (False, constructor)"
    using addFile_semantics [of constructor "''/etc/passwd''" todo_md] r1 t1 by simp
  have r2: "resolvePath constructor ''/etc'' = (Some etc_dir, [''etc''])"
    by (simp add: resolvePath_def startsWith_def findNode_def seed_defs)
  have t2: "type etc_dir = Directory" by (simp add: etc_dir_def)
  have c2: "[passwd_file] = (case children etc_dir of None \<Rightarrow> [] | Some cs \<Rightarrow> cs)"
    by (simp add: etc_dir_def)
  have n2: "\<forall>c\<in>set [passwd_file]. name c \<noteq> name todo_md"
    by (simp add: passwd_file_def todo_md_def)
  from addFile_semantics [of constructor "''/etc''" todo_md] r2 t2 c2
  obtain cs' where b1: "fst (addFile constructor ''/etc'' todo_md) = True"
    and b2: "findNode (snd (addFile constructor ''/etc'' todo_md)) [''etc'']
               = Some (set_children etc_dir (Some cs'))"
    and b3: "(\<forall>c\<in>set [passwd_file]. name c \<noteq> name todo_md) \<longrightarrow>
               cs' = [passwd_file] @ [todo_md] \<and> length cs' = length [passwd_file] + 1"
    by blast
  from b3 n2 have "cs' = [passwd_file, todo_md]" by simp
  with b2 have b: "findNode (snd (addFile constructor ''/etc'' todo_md)) [''etc'']
       = Some (set_children etc_dir (Some [passwd_file, todo_md]))" by simp
  let ?f = "set_children passwd_file None"
  have n3: "0 < length [passwd_file] \<and> name ([passwd_file] ! 0) = name ?f
            \<and> (\<forall>j<0. name ([passwd_file] ! j) \<noteq> name ?f)"
    by simp
  from addFile_semantics [of constructor "''/etc''" ?f] r2 t2 c2
  obtain cs'' where d2: "findNode (snd (addFile constructor ''/etc'' ?f)) [''etc'']
               = Some (set_children etc_dir (Some cs''))"
    and d3: "\<forall>i. i < length [passwd_file] \<and> name ([passwd_file] ! i) = name ?f
                 \<and> (\<forall>j<i. name ([passwd_file] ! j) \<noteq> name ?f) \<longrightarrow>
               cs'' = [passwd_file][i := ?f] \<and> length cs'' = length [passwd_file]"
    by blast
  from d3 n3 have "cs'' = [passwd_file][0 := ?f]" by blast
  with d2 have d: "findNode (snd (addFile constructor ''/etc'' ?f)) [''etc'']
       = Some (set_children etc_dir (Some [?f]))" by simp
  from a b1 b d show ?thesis by simp
qed

text \<open>
  Claim C10. The overwrite does not look at the kind of the child it replaces. For
  every directory that the path resolves to and every child of it, of either kind,
  that is the first to carry the new node's name, \<open>addFile\<close> returns true and puts the
  new node at that child's index. Before the call a path through that name continued
  into the old child; after it, the path continues into the new node, so the subtree
  of a replaced directory can no longer be reached.
\<close>

theorem addFile_overwrites_any_kind:
  "resolvePath this dirPath = (Some node, parts) \<Longrightarrow> type node = Directory \<Longrightarrow>
   children node = Some cs \<Longrightarrow> i < length cs \<Longrightarrow> name (cs ! i) = name fileNode \<Longrightarrow>
   (\<forall>j<i. name (cs ! j) \<noteq> name fileNode) \<Longrightarrow>
   fst (addFile this dirPath fileNode) = True
   \<and> findNode (snd (addFile this dirPath fileNode)) parts
       = Some (set_children node (Some (cs[i := fileNode])))
   \<and> (\<forall>rest. findNode this (parts @ name fileNode # rest) = findNode_loop (cs ! i) rest)
   \<and> (\<forall>rest. findNode (snd (addFile this dirPath fileNode)) (parts @ name fileNode # rest)
               = findNode_loop fileNode rest)"
proof -
  assume r: "resolvePath this dirPath = (Some node, parts)" and t: "type node = Directory"
    and c: "children node = Some cs" and i: "i < length cs" and n: "name (cs ! i) = name fileNode"
    and first: "\<forall>j<i. name (cs ! j) \<noteq> name fileNode"
  let ?p = "\<lambda>c. name c = name fileNode"
  let ?this' = "snd (addFile this dirPath fileNode)"
  have idx: "findIndex ?p cs = int i"
    using i n first by (intro findIndex_first) auto
  have ok: "fst (addFile this dirPath fileNode) = True"
    by (rule addFile_directory(1) [OF r t])
  have body: "addFile_body fileNode node = set_children node (Some (cs[i := fileNode]))"
    using c i n first by (intro addFile_body_replace) auto
  have found: "findNode ?this' parts = Some (set_children node (Some (cs[i := fileNode])))"
    using addFile_directory(2) [OF r t, of fileNode] body by simp
  have before: "findNode this parts = Some node"
    using r resolvePath_node [of this dirPath] by simp
  have f0: "find ?p cs = Some (cs ! i)"
    by (simp add: find_findIndex idx)
  have f1: "find ?p (cs[i := fileNode]) = Some fileNode"
    using find_update_first [of ?p cs fileNode] idx by simp
  have old: "findNode this (parts @ name fileNode # rest) = findNode_loop (cs ! i) rest" for rest
    using before c f0 by (simp add: findNode_eq_loop findNode_loop_append)
  have new: "findNode ?this' (parts @ name fileNode # rest) = findNode_loop fileNode rest" for rest
    using found f1 by (simp add: findNode_eq_loop findNode_loop_append)
  from ok found old new show ?thesis by simp
qed


theorem addFile_overwrites_any_kind_witness:
  "type documents_dir = Directory
   \<and> findNode constructor [''home'', ''user'', ''documents'', ''todo.md''] = Some todo_md
   \<and> fst (addFile constructor ''/home/user''
            (FileSystemNode ''documents'' File (Some ''x'') None ''-rw-r--r--'' ''user'' ''1'' ''Oct 28'')) = True
   \<and> findNode (snd (addFile constructor ''/home/user''
            (FileSystemNode ''documents'' File (Some ''x'') None ''-rw-r--r--'' ''user'' ''1'' ''Oct 28'')))
         [''home'', ''user'', ''documents'']
       = Some (FileSystemNode ''documents'' File (Some ''x'') None ''-rw-r--r--'' ''user'' ''1'' ''Oct 28'')
   \<and> findNode (snd (addFile constructor ''/home/user''
            (FileSystemNode ''documents'' File (Some ''x'') None ''-rw-r--r--'' ''user'' ''1'' ''Oct 28'')))
         [''home'', ''user'', ''documents'', ''todo.md'']
       = None"
proof -
  let ?f = "FileSystemNode ''documents'' File (Some ''x'') None ''-rw-r--r--'' ''user'' ''1'' ''Oct 28''"
  have r: "resolvePath constructor ''/home/user'' = (Some user_dir, [''home'', ''user''])"
    by (simp add: resolvePath_def startsWith_def findNode_def seed_defs)
  have t: "type user_dir = Directory" by (simp add: user_dir_def)
  have c: "children user_dir = Some [documents_dir, config_json]" by (simp add: user_dir_def)
  have i: "0 < length [documents_dir, config_json]" by simp
  have n: "name ([documents_dir, config_json] ! 0) = name ?f" by (simp add: documents_dir_def)
  have first: "\<forall>j<0. name ([documents_dir, config_json] ! j) \<noteq> name ?f" by simp
  have d: "type documents_dir = Directory" by (simp add: documents_dir_def)
  have b: "findNode constructor [''home'', ''user'', ''documents'', ''todo.md''] = Some todo_md"
    by (rule seed_todo_md)
  note w = addFile_overwrites_any_kind [OF r t c i n first]
  from w have ok: "fst (addFile constructor ''/home/user'' ?f) = True" by blast
  from w have new: "\<forall>rest. findNode (snd (addFile constructor ''/home/user'' ?f))
                     ([''home'', ''user''] @ name ?f # rest) = findNode_loop ?f rest"
    by blast
  from new [rule_format, of "[]"]
  have n0: "findNode (snd (addFile constructor ''/home/user'' ?f)) [''home'', ''user'', ''documents''] = Some ?f"
    by simp
  from new [rule_format, of "[''todo.md'']"]
  have n1: "findNode (snd (addFile constructor ''/home/user'' ?f))
              [''home'', ''user'', ''documents'', ''todo.md''] = None"
    by simp
  from d b ok n0 n1 show ?thesis by simp
qed

section \<open>listFiles\<close>

lemma js_split_single: "sep \<notin> set x \<Longrightarrow> js_split x sep = [x]"
  by (induction x) auto

lemma js_split_append: "sep \<notin> set x \<Longrightarrow> js_split (x @ sep # r) sep = x # js_split r sep"
  by (induction x) auto

lemma js_split_join:
  "segs \<noteq> [] \<Longrightarrow> \<forall>s\<in>set segs. sep \<notin> set s \<Longrightarrow> js_split (join [sep] segs) sep = segs"
  by (induction "[sep]" segs rule: join.induct) (auto simp: js_split_single js_split_append)

lemma listFiles_eq:
  "listFiles this pathStr =
     spec_listing (spec_walk (root this) (filter (\<lambda>s. s \<noteq> []) (js_split pathStr CHR ''/'')))"
proof (cases "pathStr = ''/''")
  case True
  then show ?thesis
    by (simp add: listFiles_def findNode_spec_walk split: option.splits)
next
  case False
  then show ?thesis
    by (simp add: listFiles_def findNode_spec_walk split: option.splits)
qed

lemma listFiles_segments:
  assumes "\<forall>seg\<in>set segs. seg \<noteq> [] \<and> CHR ''/'' \<notin> set seg"
  shows "listFiles this (''/'' @ join ''/'' segs) = spec_listing (spec_walk (root this) segs)"
proof (cases segs)
  case Nil
  then show ?thesis by (simp add: listFiles_eq)
next
  case (Cons a list)
  then have "js_split (join ''/'' segs) CHR ''/'' = segs"
    using assms by (intro js_split_join) auto
  moreover have "filter (\<lambda>s. s \<noteq> []) segs = segs"
    using assms by (simp add: filter_id_conv)
  ultimately show ?thesis by (simp add: listFiles_eq)
qed

text \<open>
  Claim C9. For every path string \<open>listFiles\<close> returns the listing of the node found
  by walking from the root along the non-empty pieces of the string between slashes,
  each piece matched as a child name: the children in stored order for a directory,
  the empty sequence for a file, for an absent node and for undefined children. The
  result does not depend on the cursor. Dots are not special: for every list of
  non-empty slash-free segments, a dot or a double dot among them, the string made
  of a slash and the segments joined by slashes is looked up along exactly that list.
  The string \<^verbatim>\<open>/\<close> gives the listing of the root.
\<close>

theorem listFiles_semantics:
  "listFiles this pathStr =
     spec_listing (spec_walk (root this) (filter (\<lambda>s. s \<noteq> []) (js_split pathStr CHR ''/'')))
   \<and> listFiles (this\<lparr>currentPath := cwd\<rparr>) pathStr = listFiles this pathStr
   \<and> ((\<forall>seg\<in>set segs. seg \<noteq> [] \<and> CHR ''/'' \<notin> set seg) \<longrightarrow>
        listFiles this (''/'' @ join ''/'' segs) = spec_listing (spec_walk (root this) segs))
   \<and> listFiles this ''/'' = spec_listing (Some (root this))"
proof -
  have "listFiles (this\<lparr>currentPath := cwd\<rparr>) pathStr = listFiles this pathStr"
    by (simp add: listFiles_eq)
  moreover have "listFiles this ''/'' = spec_listing (Some (root this))"
    by (simp add: listFiles_eq spec_walk_def)
  ultimately show ?thesis
    using listFiles_eq [of this pathStr] listFiles_segments [of segs this] by blast
qed

theorem listFiles_semantics_witness:
  "listFiles constructor ''/home/./user'' = []
   \<and> listFiles constructor ''/home/user/..'' = []
   \<and> listFiles constructor ''/home/user'' = [documents_dir, config_json]
   \<and> listFiles constructor ''/etc/passwd'' = []"
proof -
  have a: "\<forall>seg\<in>set [''home'', ''.'', ''user'']. seg \<noteq> [] \<and> CHR ''/'' \<notin> set seg" by simp
  have b: "\<forall>seg\<in>set [''home'', ''user'', ''..'']. seg \<noteq> [] \<and> CHR ''/'' \<notin> set seg" by simp
  have c: "\<forall>seg\<in>set [''home'', ''user'']. seg \<noteq> [] \<and> CHR ''/'' \<notin> set seg" by simp
  have d: "\<forall>seg\<in>set [''etc'', ''passwd'']. seg \<noteq> [] \<and> CHR ''/'' \<notin> set seg" by simp
  have w1: "spec_walk (root constructor) [''home'', ''.'', ''user''] = None"
    by (simp add: spec_walk_def seed_defs)
  have w2: "spec_walk (root constructor) [''home'', ''user'', ''..''] = None"
    by (simp add: spec_walk_def seed_defs)
  have w3: "spec_walk (root constructor) [''home'', ''user''] = Some user_dir"
    by (simp add: spec_walk_def seed_defs)
  have w4: "spec_walk (root constructor) [''etc'', ''passwd''] = Some passwd_file"
    by (simp add: spec_walk_def seed_defs)
  from listFiles_semantics [of constructor "''/''" "[]" "[''home'', ''.'', ''user'']"] a w1
  have r1: "listFiles constructor ''/home/./user'' = []" by simp
  from listFiles_semantics [of constructor "''/''" "[]" "[''home'', ''user'', ''..'']"] b w2
  have r2: "listFiles constructor ''/home/user/..'' = []" by simp
  from listFiles_semantics [of constructor "''/''" "[]" "[''home'', ''user'']"] c w3
  have r3: "listFiles constructor ''/home/user'' = [documents_dir, config_json]"
    by (simp add: user_dir_def)
  from listFiles_semantics [of constructor "''/''" "[]" "[''etc'', ''passwd'']"] d w4
  have r4: "listFiles constructor ''/etc/passwd'' = []"
    by (simp add: passwd_file_def)
  from r1 r2 r3 r4 show ?thesis by simp
qed

section \<open>resolvePath has no effect on the state\<close>

lemma resolvePath_loop_s_eq:
  "tp < length h \<Longrightarrow> resolvePath_loop_s tp parts h = h[tp := resolvePath_loop (h ! tp) parts]"
  by (induction parts arbitrary: h) simp_all

lemma resolvePath_s_eq:
  assumes cp: "currentPath_s this < length (arrays this)"
  shows "resolvePath_s this pathStr =
     ((fst (resolvePath (abstract this) pathStr), Suc (length (arrays this))),
      this\<lparr>arrays := arrays this @ [[], snd (resolvePath (abstract this) pathStr)]\<rparr>)"
proof -
  let ?h0 = "arrays this"
  let ?parts = "filter (\<lambda>p. length p > 0 \<and> p \<noteq> ''.'') (js_split pathStr CHR ''/'')"
  let ?start = "if startsWith pathStr ''/'' then [] else ?h0 ! currentPath_s this"
  let ?target = "resolvePath_loop ?start ?parts"
  have start: "(if startsWith pathStr ''/'' then new_array [] (?h0 @ [[]])
                else new_array ((?h0 @ [[]]) ! currentPath_s this) (?h0 @ [[]]))
               = (Suc (length ?h0), ?h0 @ [[], ?start])"
    using cp by (simp add: new_array_def nth_append)
  have loop: "resolvePath_loop_s (Suc (length ?h0)) ?parts (?h0 @ [[], ?start])
               = ?h0 @ [[], ?target]"
    by (simp add: resolvePath_loop_s_eq nth_append list_update_append)
  have cur: "(?h0 @ [[], ?target]) ! currentPath_s this = ?h0 ! currentPath_s this"
    using cp by (simp add: nth_append)
  have tgt: "(?h0 @ [[], ?target]) ! Suc (length ?h0) = ?target"
    by (simp add: nth_append)
  have abs: "abstract (this\<lparr>arrays := ?h0 @ [[], ?target]\<rparr>) = abstract this"
    using cur by (simp add: abstract_def)
  have val: "resolvePath (abstract this) pathStr = (findNode (abstract this) ?target, ?target)"
    by (simp add: resolvePath_def Let_def abstract_def)
  have "resolvePath_s this pathStr =
     ((findNode (abstract (this\<lparr>arrays := ?h0 @ [[], ?target]\<rparr>)) ((?h0 @ [[], ?target]) ! Suc (length ?h0)),
       Suc (length ?h0)),
      this\<lparr>arrays := ?h0 @ [[], ?target]\<rparr>)"
    unfolding resolvePath_s_def Let_def
    by (simp only: new_array_def [of "[]" ?h0] prod.case length_append list.size start loop)
  then show ?thesis
    by (simp only: abs tgt val fst_conv snd_conv)
qed

lemma resolvePath_absolute:
  "startsWith pathStr ''/'' \<Longrightarrow>
   resolvePath (this\<lparr>currentPath := cwd\<rparr>) pathStr = resolvePath (this\<lparr>currentPath := cwd'\<rparr>) pathStr"
  by (simp add: resolvePath_def Let_def findNode_def)


text \<open>
  Claim C7. With the arrays in a store and the cursor a valid address,
  \<open>resolvePath\<close> leaves the tree, the cursor's address and every array that existed
  before the call as they were, so the state stands for the same value state
  afterwards; the node and the segments it returns are those of the value-level
  \<open>resolvePath\<close>; and a second call with the same string on the state left by the
  first returns the same node and the same segments. For a string that starts with a
  slash the value-level result is the same for every two cursors.
\<close>

theorem resolvePath_pure:
  "(currentPath_s this < length (arrays this) \<longrightarrow>
     (case resolvePath_s this pathStr of
        ((node, targetPath), this') \<Rightarrow>
          root_s this' = root_s this
          \<and> currentPath_s this' = currentPath_s this
          \<and> take (length (arrays this)) (arrays this') = arrays this
          \<and> abstract this' = abstract this
          \<and> (node, arrays this' ! targetPath) = resolvePath (abstract this) pathStr
          \<and> (case resolvePath_s this' pathStr of
                ((node2, targetPath2), this'') \<Rightarrow>
                  node2 = node
                  \<and> arrays this'' ! targetPath2 = arrays this' ! targetPath
                  \<and> abstract this'' = abstract this)))
   \<and> (startsWith pathStr ''/'' \<longrightarrow>
        resolvePath (that\<lparr>currentPath := cwd\<rparr>) pathStr
          = resolvePath (that\<lparr>currentPath := cwd'\<rparr>) pathStr)"
proof (intro conjI impI)
  assume cp: "currentPath_s this < length (arrays this)"
  let ?v = "resolvePath (abstract this) pathStr"
  let ?this' = "this\<lparr>arrays := arrays this @ [[], snd ?v]\<rparr>"
  have first: "resolvePath_s this pathStr = ((fst ?v, Suc (length (arrays this))), ?this')"
    by (rule resolvePath_s_eq [OF cp])
  have cp': "currentPath_s ?this' < length (arrays ?this')"
    using cp by simp
  have abs: "abstract ?this' = abstract this"
    using cp by (simp add: abstract_def nth_append)
  have second: "resolvePath_s ?this' pathStr =
      ((fst ?v, Suc (length (arrays ?this'))),
       ?this'\<lparr>arrays := arrays ?this' @ [[], snd ?v]\<rparr>)"
    using resolvePath_s_eq [OF cp', of pathStr] by (simp only: abs)
  have abs2: "abstract (?this'\<lparr>arrays := arrays ?this' @ [[], snd ?v]\<rparr>) = abstract this"
    using cp by (simp add: abstract_def nth_append)
  show "case resolvePath_s this pathStr of
        ((node, targetPath), this') \<Rightarrow>
          root_s this' = root_s this
          \<and> currentPath_s this' = currentPath_s this
          \<and> take (length (arrays this)) (arrays this') = arrays this
          \<and> abstract this' = abstract this
          \<and> (node, arrays this' ! targetPath) = resolvePath (abstract this) pathStr
          \<and> (case resolvePath_s this' pathStr of
                ((node2, targetPath2), this'') \<Rightarrow>
                  node2 = node
                  \<and> arrays this'' ! targetPath2 = arrays this' ! targetPath
                  \<and> abstract this'' = abstract this)"
    unfolding first prod.case second
    using abs abs2 by (simp add: nth_append)
next
  assume "startsWith pathStr ''/''"
  then show "resolvePath (that\<lparr>currentPath := cwd\<rparr>) pathStr
          = resolvePath (that\<lparr>currentPath := cwd'\<rparr>) pathStr"
    by (rule resolvePath_absolute)
qed

theorem resolvePath_pure_witness:
  "resolvePath_s \<lparr>root_s = initialFileSystem, currentPath_s = 0, arrays = [[''home'', ''user'']]\<rparr>
       ''documents/../..''
     = ((Some home_dir, 2),
        \<lparr>root_s = initialFileSystem, currentPath_s = 0,
         arrays = [[''home'', ''user''], [], [''home'']]\<rparr>)
   \<and> resolvePath (constructor\<lparr>currentPath := []\<rparr>) ''/etc/passwd''
       = resolvePath (constructor\<lparr>currentPath := [''home'', ''user'']\<rparr>) ''/etc/passwd''
   \<and> abstract (snd (resolvePath_s \<lparr>root_s = initialFileSystem, currentPath_s = 0,
                                     arrays = [[''home'', ''user'']]\<rparr> ''/etc/passwd''))
       = abstract \<lparr>root_s = initialFileSystem, currentPath_s = 0, arrays = [[''home'', ''user'']]\<rparr>"
proof -
  let ?s = "\<lparr>root_s = initialFileSystem, currentPath_s = 0, arrays = [[''home'', ''user'']]\<rparr>"
  have cp: "currentPath_s ?s < length (arrays ?s)" by simp
  have abs: "abstract ?s = constructor"
    by (simp add: abstract_def constructor_def cloneFS_def)
  have v: "resolvePath constructor ''documents/../..'' = (Some home_dir, [''home''])"
    by (simp add: resolvePath_def startsWith_def findNode_def seed_defs)
  have e: "resolvePath_s ?s ''documents/../..''
     = ((Some home_dir, 2),
        \<lparr>root_s = initialFileSystem, currentPath_s = 0,
         arrays = [[''home'', ''user''], [], [''home'']]\<rparr>)"
    by (simp add: resolvePath_s_eq [OF cp] abs v)
  have a: "startsWith ''/etc/passwd'' ''/''" by (simp add: startsWith_def)
  note w = resolvePath_pure [where this = ?s and pathStr = "''/etc/passwd''" and that = constructor
      and cwd = "[]" and cwd' = "[''home'', ''user'']"]
  from w a
  have i: "resolvePath (constructor\<lparr>currentPath := []\<rparr>) ''/etc/passwd''
       = resolvePath (constructor\<lparr>currentPath := [''home'', ''user'']\<rparr>) ''/etc/passwd''"
    by blast
  from w [THEN conjunct1, THEN mp, OF cp]
  have "abstract (snd (resolvePath_s ?s ''/etc/passwd'')) = abstract ?s"
    by (auto split: prod.splits)
  with e i show ?thesis by simp
qed

end
